theory Spec2Isabelle
  imports Complex_Main "HOL-Library.Sublist"
begin

section \<open>JavaScript values as the filter node sees them\<close>

text \<open>
  The node works on JSON-like data: the message, the rows of a sheet, the values of the
  configuration. Numbers are IEEE doubles in the source; their type is the parameter
  \<open>'n\<close>, and every operation on them is a primitive of the host (below).
  An object is the list of its own enumerable properties in the order of their insertion.
  This is the order in which JavaScript enumerates them, except that it enumerates the
  keys that are array indices first, in numeric order; which properties an object has, and
  their values, do not depend on the order. The prototype of an object is not part of the
  value: the data are plain objects and arrays.
\<close>

datatype 'n jsval =
    Undefined
  | Null
  | Bool bool
  | Num 'n
  | Str string
  | Arr "'n jsval list"
  | Obj "(string \<times> 'n jsval) list"

type_synonym 'n obj = "(string \<times> 'n jsval) list"

datatype exn = Error string | TypeError string

fun message :: "exn \<Rightarrow> string" where
  "message (Error m) = m"
| "message (TypeError m) = m"

text \<open>\<open>String(e.message || e)\<close>, the text shown for a caught error.\<close>

definition errText :: "exn \<Rightarrow> string" where
  "errText e =
     (if message e \<noteq> [] then message e
      else (case e of Error _ \<Rightarrow> ''Error'' | TypeError _ \<Rightarrow> ''TypeError''))"

text \<open>
  \<open>Object.keys(o)\<close>, \<open>hasOwnProperty\<close>, the read \<open>o[k]\<close> of an own property, the definition
  of an own property (as an object literal and a spread do it) and \<open>delete o[k]\<close>.
\<close>

definition keys :: "'n obj \<Rightarrow> string list" where
  "keys ob = map fst ob"

definition has :: "'n obj \<Rightarrow> string \<Rightarrow> bool" where
  "has ob k = (k \<in> set (keys ob))"

definition get :: "'n obj \<Rightarrow> string \<Rightarrow> 'n jsval" where
  "get ob k = (case map_of ob k of Some v \<Rightarrow> v | None \<Rightarrow> Undefined)"

fun put :: "string \<Rightarrow> 'n jsval \<Rightarrow> 'n obj \<Rightarrow> 'n obj" where
  "put k v [] = [(k, v)]"
| "put k v ((k', v') # kvs) = (if k' = k then (k, v) # kvs else (k', v') # put k v kvs)"

definition del :: "string \<Rightarrow> 'n obj \<Rightarrow> 'n obj" where
  "del k ob = filter (\<lambda>kv. fst kv \<noteq> k) ob"

text \<open>
  The assignment \<open>o[k] = v\<close> on an object that the code builds. It defines or updates an own
  property, with one exception: a plain object inherits the accessor \<open>__proto__\<close> from
  \<open>Object.prototype\<close>. While the object has no own property of that name and the accessor
  is found on its prototype chain, \<open>o["__proto__"] = v\<close> calls the setter: no own property
  is created, and \<open>v\<close> becomes the prototype when it is an object, an array or \<open>null\<close>. With
  the prototype \<open>null\<close>, or an object that has an own property \<open>__proto__\<close>, the accessor is
  found no more, and the next such assignment creates an own property. An object under
  construction is therefore the list of its own properties paired with a flag, true while
  the accessor is inherited; the values that can become a prototype are values of the data,
  whose own prototypes are the standard ones. \<open>setOwn\<close> is the assignment on an object that
  inherits the accessor.
\<close>

definition inheritsSetter :: "'n jsval \<Rightarrow> bool" where
  "inheritsSetter v =
     (case v of Null \<Rightarrow> False | Obj p \<Rightarrow> \<not> has p ''__proto__'' | _ \<Rightarrow> True)"

definition setProp :: "string \<Rightarrow> 'n jsval \<Rightarrow> 'n obj \<times> bool \<Rightarrow> 'n obj \<times> bool" where
  "setProp k v ob =
     (if k = ''__proto__'' \<and> \<not> has (fst ob) k \<and> snd ob then (fst ob, inheritsSetter v)
      else (put k v (fst ob), snd ob))"

definition delProp :: "string \<Rightarrow> 'n obj \<times> bool \<Rightarrow> 'n obj \<times> bool" where
  "delProp k ob = (del k (fst ob), snd ob)"

definition setOwn :: "string \<Rightarrow> 'n jsval \<Rightarrow> 'n obj \<Rightarrow> 'n obj" where
  "setOwn k v ob = fst (setProp k v (ob, True))"

text \<open>The object literal \<open>{...a, ...b}\<close>: the properties of \<open>b\<close> are assigned onto \<open>a\<close> in order.\<close>

definition assign :: "'n obj \<Rightarrow> 'n obj \<Rightarrow> 'n obj" where
  "assign a b = foldl (\<lambda>acc kv. put (fst kv) (snd kv) acc) a b"

text \<open>Decimal keys \<open>"0"\<close>, \<open>"1"\<close>, ... of the elements of an array or the units of a string.\<close>

fun digits :: "nat \<Rightarrow> nat \<Rightarrow> string" where
  "digits 0 n = ''''"
| "digits (Suc fuel) n =
     (if n < 10 then [''0123456789'' ! n]
      else digits fuel (n div 10) @ [''0123456789'' ! (n mod 10)])"

definition indexKey :: "nat \<Rightarrow> string" where
  "indexKey n = digits (Suc n) n"

text \<open>
  The own enumerable properties of any value, as \<open>Object.entries\<close> and the spread
  \<open>{...v}\<close> read them: the properties of an object, the elements of an array, the units of a
  string, nothing for the other primitives.
\<close>

fun entries :: "'n jsval \<Rightarrow> 'n obj" where
  "entries (Obj kvs) = kvs"
| "entries (Arr xs) = zip (map indexKey [0..<length xs]) xs"
| "entries (Str s) = zip (map indexKey [0..<length s]) (map (\<lambda>c. Str [c]) s)"
| "entries _ = []"

definition spread :: "'n jsval \<Rightarrow> 'n obj" where
  "spread v = assign [] (entries v)"

fun isObjectType :: "'n jsval \<Rightarrow> bool" where
  "isObjectType (Obj _) = True"
| "isObjectType (Arr _) = True"
| "isObjectType Null = True"
| "isObjectType _ = False"

fun intercalate :: "string \<Rightarrow> string list \<Rightarrow> string" where
  "intercalate sep [] = ''''"
| "intercalate sep [x] = x"
| "intercalate sep (x # y # ys) = x @ sep @ intercalate sep (y # ys)"

text \<open>\<open>s.includes(t)\<close> and \<open>s.startsWith(t)\<close> on strings.\<close>

fun strIncludes :: "string \<Rightarrow> string \<Rightarrow> bool" where
  "strIncludes [] t = (t = [])"
| "strIncludes (c # s) t = (prefix t (c # s) \<or> strIncludes s t)"

definition startsWith :: "string \<Rightarrow> string \<Rightarrow> bool" where
  "startsWith s t = (take (length t) s = t)"

section \<open>The host: language primitives and Node-RED services\<close>

text \<open>
  What the node calls but does not define. The world \<open>'w\<close> is everything outside the
  node that an awaited call can read or change: the context stores, the node's status, the
  clock. A call that can throw returns \<open>Inl\<close> of the exception.
\<close>

record ('n, 'w) host =
  numTruthy :: "'n \<Rightarrow> bool"
  numToString :: "'n \<Rightarrow> string"
  numOfNat :: "nat \<Rightarrow> 'n"
  numDiv :: "'n \<Rightarrow> 'n \<Rightarrow> 'n"
  numIsNaN :: "'n \<Rightarrow> bool"
  numLess :: "'n \<Rightarrow> 'n \<Rightarrow> bool"
  numLessEq :: "'n \<Rightarrow> 'n \<Rightarrow> bool"
  toNumber :: "'n jsval \<Rightarrow> 'n"
  looseEq :: "'n jsval \<Rightarrow> 'n jsval \<Rightarrow> bool"
  trim :: "string \<Rightarrow> string"
  toLowerCase :: "string \<Rightarrow> string"
  stripInvisible :: "string \<Rightarrow> string"
  regexTest :: "string \<Rightarrow> string \<Rightarrow> bool option"
  basename :: "string \<Rightarrow> string"
  evaluateJSONata :: "string \<Rightarrow> 'n jsval \<Rightarrow> 'w \<Rightarrow> (exn + 'n jsval) \<times> 'w"
  getMessageProperty :: "'n jsval \<Rightarrow> 'n jsval \<Rightarrow> exn + 'n jsval"
  setMessageProperty :: "'n jsval \<Rightarrow> string \<Rightarrow> 'n jsval \<Rightarrow> exn + 'n jsval"
  hasContext :: "string \<Rightarrow> bool"
  contextGet :: "string \<Rightarrow> 'n jsval \<Rightarrow> 'w \<Rightarrow> exn + 'n jsval"
  contextSet :: "string \<Rightarrow> string \<Rightarrow> 'n jsval \<Rightarrow> 'w \<Rightarrow> 'w"
  envGet :: "'n jsval \<Rightarrow> 'n jsval"
  nodeStatus :: "string \<Rightarrow> string \<Rightarrow> string \<Rightarrow> 'w \<Rightarrow> 'w"

text \<open>
  \<open>regexTest p s\<close> is \<open>new RegExp(p).test(s)\<close>, \<open>None\<close> when the pattern does not compile;
  \<open>stripInvisible\<close> removes the zero-width characters and the arrow that \<open>sanitizeExpr\<close>
  names; \<open>basename\<close> is \<open>path.basename\<close>; \<open>hasContext scope\<close> says that
  \<open>node.context()[scope]\<close> is a store with \<open>get\<close> and \<open>set\<close>; \<open>envGet k\<close> is
  \<open>process.env[k]\<close>; \<open>nodeStatus fill shape text\<close> is \<open>node.status({fill, shape, text})\<close>.
\<close>

fun truthy :: "('n, 'w, 'x) host_scheme \<Rightarrow> 'n jsval \<Rightarrow> bool" where
  "truthy h Undefined = False"
| "truthy h Null = False"
| "truthy h (Bool b) = b"
| "truthy h (Num n) = numTruthy h n"
| "truthy h (Str s) = (s \<noteq> [])"
| "truthy h (Arr _) = True"
| "truthy h (Obj _) = True"

text \<open>\<open>String(v)\<close>: an array joins its elements with commas, \<open>null\<close> and \<open>undefined\<close> as empty.\<close>

fun jsString :: "('n, 'w, 'x) host_scheme \<Rightarrow> 'n jsval \<Rightarrow> string" where
  "jsString h Undefined = ''undefined''"
| "jsString h Null = ''null''"
| "jsString h (Bool b) = (if b then ''true'' else ''false'')"
| "jsString h (Num n) = numToString h n"
| "jsString h (Str s) = s"
| "jsString h (Arr xs) =
     intercalate '','' (map (\<lambda>x. if x = Undefined \<or> x = Null then [] else jsString h x) xs)"
| "jsString h (Obj _) = ''[object Object]''"

section \<open>Awaited computations\<close>

text \<open>
  An \<open>async\<close> function is a computation over the world that returns a value or throws.
  \<open>bnd\<close> is \<open>await\<close> followed by the rest of the body; \<open>catch\<close> is \<open>try { ... } catch\<close>.
\<close>

type_synonym ('a, 'w) io = "'w \<Rightarrow> (exn + 'a) \<times> 'w"

definition ret :: "'a \<Rightarrow> ('a, 'w) io" where
  "ret x = (\<lambda>w. (Inr x, w))"

definition thr :: "exn \<Rightarrow> ('a, 'w) io" where
  "thr e = (\<lambda>w. (Inl e, w))"

definition bnd :: "('a, 'w) io \<Rightarrow> ('a \<Rightarrow> ('b, 'w) io) \<Rightarrow> ('b, 'w) io" where
  "bnd m f = (\<lambda>w. case m w of (Inl e, w') \<Rightarrow> (Inl e, w') | (Inr x, w') \<Rightarrow> f x w')"

definition catch :: "('a, 'w) io \<Rightarrow> (exn \<Rightarrow> ('a, 'w) io) \<Rightarrow> ('a, 'w) io" where
  "catch m hdl = (\<lambda>w. case m w of (Inl e, w') \<Rightarrow> hdl e w' | (Inr x, w') \<Rightarrow> (Inr x, w'))"

definition lift :: "exn + 'a \<Rightarrow> ('a, 'w) io" where
  "lift r = (\<lambda>w. (r, w))"

definition effect :: "('w \<Rightarrow> 'w) \<Rightarrow> (unit, 'w) io" where
  "effect f = (\<lambda>w. (Inr (), f w))"

section \<open>The runtime schema\<close>

text \<open>
  The schema that \<open>withDefaults\<close> returns. A type tag (\<open>colType\<close>, \<open>sheetScopeType\<close>, ...)
  is a string, the empty string standing for an absent tag: the source reads every tag as
  \<open>tag || "str"\<close>. The entries of the lists are objects that share their first fields, so
  each record extends the one before it. In a rename entry \<open>fromRef\<close> and \<open>toRef\<close> are the
  source's \<open>from\<close> and \<open>to\<close>; in the conditional rename \<open>condOp\<close>, \<open>condRhsType\<close>, \<open>condRhs\<close>
  and \<open>condList\<close> are its \<open>op\<close>, \<open>rhsType\<close>, \<open>rhs\<close> and \<open>list\<close>; \<open>newCol\<close> is the \<open>col\<close> of a
  derive entry; \<open>outputCfg\<close> and \<open>outStructure\<close> are \<open>output\<close> and its \<open>structure\<close>.
\<close>

record 'n scoped =
  sheetScope :: "'n jsval"
  sheetScopeType :: string

record 'n selectItem = "'n scoped" +
  col :: "'n jsval"
  colType :: string

record 'n rule = "'n selectItem" +
  op :: string
  rhsType :: string
  rhs :: "'n jsval"
  caseSensitive :: "'n jsval"
  coerce :: "'n jsval"

record 'n renameItem = "'n scoped" +
  fromRef :: "'n jsval"
  fromType :: string
  toRef :: "'n jsval"
  toType :: string

record 'n deriveItem =
  newCol :: string
  exprType :: string
  expr :: "'n jsval"

record 'n conditionalRename =
  enabled :: bool
  whenLhsType :: string
  whenLhs :: "'n jsval"
  condOp :: string
  condRhsType :: string
  condRhs :: "'n jsval"
  condList :: "'n renameItem list"

record outputSpec =
  targetType :: string
  targetPath :: string
  outStructure :: string
  includeSummary :: bool

record 'n schema =
  inputPath :: string
  inputPathType :: string
  includeSheetRegex :: string
  excludeSheetRegex :: string
  filterLogic :: string
  rules :: "'n rule list"
  selectMode :: string
  selectList :: "'n selectItem list"
  renameList :: "'n renameItem list"
  conditionalRename :: "'n conditionalRename"
  deriveList :: "'n deriveItem list"
  outputCfg :: outputSpec

section \<open>Helpers of the runtime\<close>

definition sanitizeExpr :: "('n, 'w, 'x) host_scheme \<Rightarrow> 'n jsval \<Rightarrow> string" where
  "sanitizeExpr h src =
     trim h (stripInvisible h (jsString h (if truthy h src then src else Str [])))"

text \<open>A compiled pattern is kept as its source text; \<open>safeRegex\<close> gives \<open>None\<close> for \<open>null\<close>.\<close>

definition safeRegex :: "('n, 'w, 'x) host_scheme \<Rightarrow> string \<Rightarrow> string option" where
  "safeRegex h rx =
     (if rx = [] then None
      else (case regexTest h rx [] of None \<Rightarrow> None | Some _ \<Rightarrow> Some rx))"

definition passNameFilters ::
  "('n, 'w, 'x) host_scheme \<Rightarrow> string \<Rightarrow> string option \<Rightarrow> string option \<Rightarrow> bool" where
  "passNameFilters h name inc exc =
     (if (case inc of None \<Rightarrow> False | Some p \<Rightarrow> regexTest h p name \<noteq> Some True) then False
      else if (case exc of None \<Rightarrow> False | Some p \<Rightarrow> regexTest h p name = Some True) then False
      else True)"

text \<open>
  The own properties of a value, with the \<open>length\<close> of an array or a string, and the
  property read \<open>v[k]\<close>. Properties inherited from a prototype are not modelled.
\<close>

fun ownProps :: "('n, 'w, 'x) host_scheme \<Rightarrow> 'n jsval \<Rightarrow> 'n obj" where
  "ownProps h (Arr xs) = entries (Arr xs) @ [(''length'', Num (numOfNat h (length xs)))]"
| "ownProps h (Str s) = entries (Str s) @ [(''length'', Num (numOfNat h (length s)))]"
| "ownProps h v = entries v"

definition member :: "('n, 'w, 'x) host_scheme \<Rightarrow> 'n jsval \<Rightarrow> string \<Rightarrow> 'n jsval" where
  "member h v k = get (ownProps h v) k"

text \<open>\<open>Object.prototype.hasOwnProperty.call(v, k)\<close> throws on \<open>null\<close> and \<open>undefined\<close>.\<close>

fun hasOwnProperty :: "('n, 'w, 'x) host_scheme \<Rightarrow> 'n jsval \<Rightarrow> string \<Rightarrow> exn + bool" where
  "hasOwnProperty h Undefined k = Inl (TypeError ''Cannot convert undefined or null to object'')"
| "hasOwnProperty h Null k = Inl (TypeError ''Cannot convert undefined or null to object'')"
| "hasOwnProperty h v k = Inr (has (ownProps h v) k)"

text \<open>\<open>s.split(".").filter(Boolean)\<close>: the non-empty pieces between the dots.\<close>

fun splitDots :: "string \<Rightarrow> string \<Rightarrow> string list" where
  "splitDots cur [] = (if cur = [] then [] else [cur])"
| "splitDots cur (c # cs) =
     (if c = CHR ''.'' then (if cur = [] then splitDots [] cs else cur # splitDots [] cs)
      else splitDots (cur @ [c]) cs)"

datatype 'n root = MsgRoot "'n jsval" | ContextRoot string

definition getRootContainer :: "'n jsval \<Rightarrow> string \<Rightarrow> 'n root" where
  "getRootContainer msg scope =
     (if scope = ''msg'' then MsgRoot msg
      else if scope = ''flow'' then ContextRoot ''flow''
      else if scope = ''global'' then ContextRoot ''global''
      else MsgRoot msg)"

fun walk :: "('n, 'w, 'x) host_scheme \<Rightarrow> 'n jsval \<Rightarrow> string list \<Rightarrow> 'n jsval" where
  "walk h cur [] = cur"
| "walk h cur (p # ps) =
     (if cur = Undefined \<or> cur = Null then Undefined else walk h (member h cur p) ps)"

fun deepGet :: "('n, 'w, 'x) host_scheme \<Rightarrow> 'n root \<Rightarrow> string \<Rightarrow> ('n jsval, 'w) io" where
  "deepGet h (ContextRoot scope) pathStr =
     (if pathStr = [] then ret Undefined
      else (\<lambda>w. (contextGet h scope (Str pathStr) w, w)))"
| "deepGet h (MsgRoot m) pathStr =
     (if \<not> truthy h m \<or> pathStr = [] then ret Undefined
      else if truthy h (member h m ''get'') \<and> truthy h (member h m ''set'')
        then thr (TypeError ''root.get is not a function'')
      else ret (walk h m (splitDots [] pathStr)))"

definition evalJSONata ::
  "('n, 'w, 'x) host_scheme \<Rightarrow> string \<Rightarrow> 'n jsval \<Rightarrow> ('n jsval, 'w) io" where
  "evalJSONata h src contextObj = evaluateJSONata h src contextObj"

fun ensureArray :: "'n jsval \<Rightarrow> 'n jsval list" where
  "ensureArray (Arr xs) = xs"
| "ensureArray Null = []"
| "ensureArray Undefined = []"
| "ensureArray v = [v]"

text \<open>
  \<open>resolveDynamic\<close>: the expression context is \<open>{ ...msg, row: rowCtx, ...extras }\<close>; a failed
  expression sets a red status and resolves to \<open>undefined\<close>.
\<close>

definition resolveDynamic ::
  "('n, 'w, 'x) host_scheme \<Rightarrow> 'n jsval \<Rightarrow> 'n jsval \<Rightarrow> string \<Rightarrow> 'n jsval \<Rightarrow> 'n obj
     \<Rightarrow> ('n jsval, 'w) io" where
  "resolveDynamic h msg val typ rowCtx extras =
     (let t = (if typ = [] then ''str'' else typ) in
      if t = ''str'' then ret val
      else if t = ''msg'' then lift (getMessageProperty h msg val)
      else if t = ''flow'' then (\<lambda>w. (contextGet h ''flow'' val w, w))
      else if t = ''global'' then (\<lambda>w. (contextGet h ''global'' val w, w))
      else if t = ''env'' then ret (envGet h val)
      else if t = ''jsonata'' then
        catch (evalJSONata h (sanitizeExpr h val)
                 (Obj (assign (put ''row'' rowCtx (spread msg)) extras)))
          (\<lambda>e. bnd (effect (nodeStatus h ''red'' ''ring'' (''JSONata ERR: '' @ errText e)))
                  (\<lambda>_. ret Undefined))
      else ret val)"

definition coerceVal :: "('n, 'w, 'x) host_scheme \<Rightarrow> 'n jsval \<Rightarrow> 'n jsval" where
  "coerceVal h v =
     (case v of
        Str s \<Rightarrow>
          (let t = trim h s in
           if t = ''true'' then Bool True
           else if t = ''false'' then Bool False
           else if t \<noteq> [] \<and> \<not> numIsNaN h (toNumber h (Str t)) then Num (toNumber h (Str t))
           else v)
      | _ \<Rightarrow> v)"

definition isEmpty :: "('n, 'w, 'x) host_scheme \<Rightarrow> 'n jsval \<Rightarrow> bool" where
  "isEmpty h v =
     (v = Null \<or> v = Undefined \<or> (case v of Str s \<Rightarrow> trim h s = [] | _ \<Rightarrow> False))"

section \<open>Row filters\<close>

text \<open>
  \<open>ruleAppliesTo\<close>: the sheet-scope check shared by rules, select entries and rename
  entries. The expression scope is evaluated on \<open>{ ...msg, sheet, row: rowCtx }\<close>.
\<close>

definition ruleAppliesTo ::
  "('n, 'w, 'x) host_scheme \<Rightarrow> 'n jsval \<Rightarrow> ('n, 'y) scoped_scheme \<Rightarrow> string \<Rightarrow> 'n jsval
     \<Rightarrow> (bool, 'w) io" where
  "ruleAppliesTo h msg r sheet rowCtx =
     (if truthy h (sheetScope r) then
        (let t = (if sheetScopeType r = [] then ''str'' else sheetScopeType r) in
         if t = ''str'' then (if Str sheet \<noteq> sheetScope r then ret False else ret True)
         else if t = ''regex'' then
           (case regexTest h (jsString h (sheetScope r)) sheet of
              None \<Rightarrow> ret False
            | Some b \<Rightarrow> if \<not> b then ret False else ret True)
         else if t = ''jsonata'' then
           catch (bnd (evalJSONata h (sanitizeExpr h (sheetScope r))
                         (Obj (put ''row'' rowCtx (put ''sheet'' (Str sheet) (spread msg)))))
                    (\<lambda>ok. if \<not> truthy h ok then ret False else ret True))
             (\<lambda>e. ret False)
         else ret True)
      else ret True)"

definition resolveColumnName ::
  "('n, 'w, 'x) host_scheme \<Rightarrow> 'n jsval \<Rightarrow> ('n, 'y) selectItem_scheme \<Rightarrow> 'n jsval \<Rightarrow> string
     \<Rightarrow> ('n jsval, 'w) io" where
  "resolveColumnName h msg r rowCtx sheet =
     resolveDynamic h msg (col r) (colType r) rowCtx [(''sheet'', Str sheet)]"

definition resolveRHS ::
  "('n, 'w, 'x) host_scheme \<Rightarrow> 'n jsval \<Rightarrow> ('n, 'y) rule_scheme \<Rightarrow> 'n jsval \<Rightarrow> string
     \<Rightarrow> ('n jsval, 'w) io" where
  "resolveRHS h msg r rowCtx sheet =
     resolveDynamic h msg (rhs r) (rhsType r) rowCtx [(''sheet'', Str sheet)]"

text \<open>The closure \<open>compare\<close> of \<open>evalRule\<close>, with the values it captures as arguments.\<close>

definition lowerUnless :: "('n, 'w, 'x) host_scheme \<Rightarrow> bool \<Rightarrow> 'n jsval \<Rightarrow> 'n jsval" where
  "lowerUnless h caseSens v =
     (case v of Str s \<Rightarrow> if \<not> caseSens then Str (toLowerCase h s) else v | _ \<Rightarrow> v)"

definition compare ::
  "('n, 'w, 'x) host_scheme \<Rightarrow> ('n, 'y) rule_scheme \<Rightarrow> 'n jsval \<Rightarrow> bool \<Rightarrow> 'n jsval \<Rightarrow> bool" where
  "compare h r Rraw caseSens L =
     (let Lc = (if coerce r = Bool False then L else coerceVal h L);
          Ls = lowerUnless h caseSens Lc;
          Rs = lowerUnless h caseSens Rraw
      in
      if op r = ''=='' then looseEq h Ls Rs
      else if op r = ''!='' then \<not> looseEq h Ls Rs
      else if op r = ''<'' then numLess h (toNumber h Lc) (toNumber h Rraw)
      else if op r = ''<='' then numLessEq h (toNumber h Lc) (toNumber h Rraw)
      else if op r = ''>'' then numLess h (toNumber h Rraw) (toNumber h Lc)
      else if op r = ''>='' then numLessEq h (toNumber h Rraw) (toNumber h Lc)
      else if op r = ''contains'' then
        (case (Ls, Rs) of (Str a, Str b) \<Rightarrow> strIncludes a b | _ \<Rightarrow> False)
      else if op r = ''!contains'' then
        (case (Ls, Rs) of (Str a, Str b) \<Rightarrow> \<not> strIncludes a b | _ \<Rightarrow> True)
      else if op r = ''regex'' then
        (case regexTest h (jsString h Rraw) (jsString h Lc) of None \<Rightarrow> False | Some b \<Rightarrow> b)
      else if op r = ''isEmpty'' then isEmpty h Lc
      else if op r = ''!isEmpty'' then \<not> isEmpty h Lc
      else False)"

text \<open>
  The loop over the resolved column names: a name that is not an own property of the row
  is skipped, the first column that satisfies the comparator ends the loop.
\<close>

fun anyColumn ::
  "('n, 'w, 'x) host_scheme \<Rightarrow> ('n jsval \<Rightarrow> bool) \<Rightarrow> 'n jsval \<Rightarrow> string list \<Rightarrow> exn + bool" where
  "anyColumn h cmp row [] = Inr False"
| "anyColumn h cmp row (cn # cns) =
     (case hasOwnProperty h row cn of
        Inl e \<Rightarrow> Inl e
      | Inr present \<Rightarrow>
          if \<not> present then anyColumn h cmp row cns
          else if cmp (member h row cn) then Inr True
          else anyColumn h cmp row cns)"

definition columnNames :: "('n, 'w, 'x) host_scheme \<Rightarrow> 'n jsval \<Rightarrow> string list" where
  "columnNames h colResolved =
     map (jsString h) (filter (\<lambda>c. c \<noteq> Undefined \<and> c \<noteq> Null) (ensureArray colResolved))"

definition evalRule ::
  "('n, 'w, 'x) host_scheme \<Rightarrow> 'n jsval \<Rightarrow> 'n jsval \<Rightarrow> string \<Rightarrow> ('n, 'y) rule_scheme
     \<Rightarrow> (bool, 'w) io" where
  "evalRule h row msg sheet r =
     bnd (ruleAppliesTo h msg r sheet row) (\<lambda>applies.
       if \<not> applies then ret True
       else if op r = ''jsonata'' then
         catch (bnd (evalJSONata h (sanitizeExpr h (if truthy h (rhs r) then rhs r else Str []))
                       (Obj (put ''sheet'' (Str sheet) (put ''row'' row (spread msg)))))
                  (\<lambda>ok. ret (truthy h ok)))
           (\<lambda>e. ret False)
       else
         bnd (resolveColumnName h msg r row sheet) (\<lambda>colResolved.
           let colNames = columnNames h colResolved in
           if colNames = [] then ret False
           else
             bnd (resolveRHS h msg r row sheet) (\<lambda>rval.
               let Rraw = (if coerce r = Bool False then rval else coerceVal h rval);
                   caseSens = truthy h (caseSensitive r)
               in lift (anyColumn h (compare h r Rraw caseSens) row colNames))))"

text \<open>The two loops of \<open>rowPasses\<close> over the rule list.\<close>

fun orRules :: "('r \<Rightarrow> (bool, 'w) io) \<Rightarrow> 'r list \<Rightarrow> (bool, 'w) io" where
  "orRules ev [] = ret False"
| "orRules ev (r # rs) = bnd (ev r) (\<lambda>b. if b then ret True else orRules ev rs)"

fun andRules :: "('r \<Rightarrow> (bool, 'w) io) \<Rightarrow> 'r list \<Rightarrow> (bool, 'w) io" where
  "andRules ev [] = ret True"
| "andRules ev (r # rs) = bnd (ev r) (\<lambda>b. if \<not> b then ret False else andRules ev rs)"

definition rowPasses ::
  "('n, 'w, 'x) host_scheme \<Rightarrow> 'n schema \<Rightarrow> 'n jsval \<Rightarrow> 'n jsval \<Rightarrow> string \<Rightarrow> (bool, 'w) io" where
  "rowPasses h rt row msg sheet =
     (if rules rt = [] then ret True
      else if filterLogic rt = ''OR'' then orRules (evalRule h row msg sheet) (rules rt)
      else andRules (evalRule h row msg sheet) (rules rt))"

section \<open>Select, rename, condition\<close>

text \<open>A JavaScript \<open>Set\<close> of strings is the list of its members in insertion order.\<close>

definition setAdd :: "string \<Rightarrow> string list \<Rightarrow> string list" where
  "setAdd x s = (if x \<in> set s then s else s @ [x])"

fun scopedColumnsFrom ::
  "('n, 'w, 'x) host_scheme \<Rightarrow> 'n jsval \<Rightarrow> string \<Rightarrow> ('n, 'y) selectItem_scheme list
     \<Rightarrow> string list \<Rightarrow> (string list, 'w) io" where
  "scopedColumnsFrom h msg sheet [] acc = ret acc"
| "scopedColumnsFrom h msg sheet (it # its) acc =
     bnd (ruleAppliesTo h msg it sheet Null) (\<lambda>applies.
       if \<not> applies then scopedColumnsFrom h msg sheet its acc
       else
         bnd (resolveDynamic h msg (col it) (colType it) Null [(''sheet'', Str sheet)])
           (\<lambda>resolved.
             let cols = map (jsString h) (ensureArray resolved) in
             scopedColumnsFrom h msg sheet its
               (foldl (\<lambda>s c. if c \<noteq> [] then setAdd c s else s) acc cols)))"

definition buildScopedColumnSet ::
  "('n, 'w, 'x) host_scheme \<Rightarrow> 'n jsval \<Rightarrow> string \<Rightarrow> ('n, 'y) selectItem_scheme list
     \<Rightarrow> (string list, 'w) io" where
  "buildScopedColumnSet h msg sheet selList = scopedColumnsFrom h msg sheet selList []"

text \<open>
  \<open>pickSet\<close>: \<open>keys.find\<close> gives the first key that fits or \<open>undefined\<close>; the tests \<open>!k\<close> and
  \<open>if (k)\<close> also reject the empty key. The result is the fresh object \<open>{}\<close> after the
  assignments \<open>out[k] = row[k]\<close>; so is the result of \<open>omitSet\<close>.
\<close>

definition pickKey :: "('n, 'w, 'x) host_scheme \<Rightarrow> string list \<Rightarrow> string \<Rightarrow> string option" where
  "pickKey h ks want =
     (let k = find (\<lambda>x. x = want) ks in
      if k = None \<or> k = Some [] then
        (let wantN = toLowerCase h (trim h want) in
         find (\<lambda>x. toLowerCase h (trim h x) = wantN) ks)
      else k)"

fun pickInto ::
  "('n, 'w, 'x) host_scheme \<Rightarrow> 'n obj \<Rightarrow> string list \<Rightarrow> 'n obj \<times> bool \<Rightarrow> 'n obj \<times> bool" where
  "pickInto h row [] out = out"
| "pickInto h row (want # wants) out =
     (case pickKey h (keys row) want of
        None \<Rightarrow> pickInto h row wants out
      | Some k \<Rightarrow>
          if k \<noteq> [] then pickInto h row wants (setProp k (get row k) out)
          else pickInto h row wants out)"

definition pickSet :: "('n, 'w, 'x) host_scheme \<Rightarrow> 'n obj \<Rightarrow> string list \<Rightarrow> 'n obj" where
  "pickSet h row colSet = fst (pickInto h row colSet ([], True))"

definition omitSet :: "('n, 'w, 'x) host_scheme \<Rightarrow> 'n obj \<Rightarrow> string list \<Rightarrow> 'n obj" where
  "omitSet h row colSet =
     (let dropExact = set colSet;
          dropNorm = set (map (\<lambda>s. toLowerCase h (trim h s)) colSet)
      in fst (foldl (\<lambda>out k.
                      if k \<in> dropExact then out
                      else if toLowerCase h (trim h k) \<in> dropNorm then out
                      else setProp k (get row k) out)
                ([], True) (keys row)))"

text \<open>
  The pairwise loop of \<open>renameWithList\<close>, \<open>for (let i = 0; i < n; i++)\<close>. An array read
  gives \<open>None\<close> for \<open>undefined\<close> (out of range); the index \<open>Math.min(i, length - 1)\<close> of an
  empty array is \<open>-1\<close> in the source and \<open>0\<close> here, out of range in both.
\<close>

definition arrayAt :: "'a list \<Rightarrow> nat \<Rightarrow> 'a option" where
  "arrayAt xs i = (if i < length xs then Some (xs ! i) else None)"

definition renamePair ::
  "string option \<Rightarrow> string option \<Rightarrow> 'n obj \<times> bool \<Rightarrow> 'n obj \<times> bool" where
  "renamePair fromK toK out =
     (case (fromK, toK) of
        (Some f, Some t) \<Rightarrow>
          if f = [] \<or> t = [] \<or> f = t then out
          else if has (fst out) f then delProp f (setProp t (get (fst out) f) out)
          else out
      | _ \<Rightarrow> out)"

function renamePairs ::
  "string list \<Rightarrow> string list \<Rightarrow> nat \<Rightarrow> nat \<Rightarrow> 'n obj \<times> bool \<Rightarrow> 'n obj \<times> bool" where
  "renamePairs fromArr toArr i n out =
     (if i < n then
        renamePairs fromArr toArr (Suc i) n
          (renamePair (arrayAt fromArr (min i (length fromArr - 1)))
             (arrayAt toArr (min i (length toArr - 1))) out)
      else out)"
  by pat_completeness auto
termination
  by (relation "measure (\<lambda>(fromArr, toArr, i, n, out). n - i)") auto

declare renamePairs.simps [simp del]

fun renameEntries ::
  "('n, 'w, 'x) host_scheme \<Rightarrow> 'n obj \<Rightarrow> 'n jsval \<Rightarrow> string \<Rightarrow> ('n, 'y) renameItem_scheme list
     \<Rightarrow> 'n obj \<times> bool \<Rightarrow> ('n obj \<times> bool, 'w) io" where
  "renameEntries h row msg sheet [] out = ret out"
| "renameEntries h row msg sheet (it # its) out =
     bnd (ruleAppliesTo h msg it sheet (Obj row)) (\<lambda>applies.
       if \<not> applies then renameEntries h row msg sheet its out
       else
         bnd (resolveDynamic h msg (fromRef it) (fromType it) (Obj row) [(''sheet'', Str sheet)])
           (\<lambda>fromRes.
         bnd (resolveDynamic h msg (toRef it) (toType it) (Obj row) [(''sheet'', Str sheet)])
           (\<lambda>toRes.
             let fromArr = map (jsString h) (ensureArray fromRes);
                 toArr = map (jsString h) (ensureArray toRes)
             in renameEntries h row msg sheet its
                  (if fromArr \<noteq> [] \<and> toArr \<noteq> []
                   then renamePairs fromArr toArr 0 (max (length fromArr) (length toArr)) out
                   else out))))"

definition renameWithList ::
  "('n, 'w, 'x) host_scheme \<Rightarrow> 'n obj \<Rightarrow> 'n jsval \<Rightarrow> string \<Rightarrow> ('n, 'y) renameItem_scheme list
     \<Rightarrow> ('n obj, 'w) io" where
  "renameWithList h row msg sheet lst =
     bnd (renameEntries h row msg sheet lst (assign [] row, True)) (\<lambda>out. ret (fst out))"

text \<open>\<open>conditionTrue\<close> resolves both sides with no row and no extras.\<close>

definition conditionTrue ::
  "('n, 'w, 'x) host_scheme \<Rightarrow> 'n schema \<Rightarrow> 'n jsval \<Rightarrow> (bool, 'w) io" where
  "conditionTrue h rt msg =
     catch
       (bnd (resolveDynamic h msg (whenLhs (conditionalRename rt))
               (whenLhsType (conditionalRename rt)) Undefined [])
          (\<lambda>lhsVal.
        bnd (resolveDynamic h msg (condRhs (conditionalRename rt))
               (condRhsType (conditionalRename rt)) Undefined [])
          (\<lambda>rhsVal.
            let L = coerceVal h lhsVal; R = coerceVal h rhsVal; cop = condOp (conditionalRename rt)
            in
            if cop = ''=='' then ret (looseEq h L R)
            else if cop = ''!='' then ret (\<not> looseEq h L R)
            else if cop = ''contains'' then
              ret (case (L, R) of (Str a, Str b) \<Rightarrow> strIncludes a b | _ \<Rightarrow> False)
            else if cop = ''!contains'' then
              ret (case (L, R) of (Str a, Str b) \<Rightarrow> \<not> strIncludes a b | _ \<Rightarrow> True)
            else if cop = ''regex'' then
              ret (case regexTest h (jsString h R) (jsString h L) of None \<Rightarrow> False | Some b \<Rightarrow> b)
            else if cop = ''isEmpty'' then ret (isEmpty h L)
            else if cop = ''!isEmpty'' then ret (\<not> isEmpty h L)
            else ret False)))
       (\<lambda>e. ret False)"

section \<open>The input handler\<close>

text \<open>
  The body of \<open>node.on("input", ...)\<close>, cut into its stages. \<open>filterRows\<close> is stage 1, the
  loop that pushes the rows that pass.
\<close>

fun filterRows ::
  "('n, 'w, 'x) host_scheme \<Rightarrow> 'n schema \<Rightarrow> 'n jsval \<Rightarrow> string \<Rightarrow> 'n jsval list
     \<Rightarrow> ('n jsval list, 'w) io" where
  "filterRows h rt msg sheet [] = ret []"
| "filterRows h rt msg sheet (row # rows) =
     bnd (rowPasses h rt row msg sheet) (\<lambda>passes.
       bnd (filterRows h rt msg sheet rows) (\<lambda>rest.
         ret (if passes then row # rest else rest)))"

text \<open>Stage 2a, select.\<close>

definition selectStage ::
  "('n, 'w, 'x) host_scheme \<Rightarrow> 'n schema \<Rightarrow> 'n jsval \<Rightarrow> string \<Rightarrow> 'n obj list
     \<Rightarrow> ('n obj list, 'w) io" where
  "selectStage h rt msg sheet transformed =
     (if selectMode rt \<noteq> ''none'' \<and> selectList rt \<noteq> [] then
        bnd (buildScopedColumnSet h msg sheet (selectList rt)) (\<lambda>colSet.
          if selectMode rt = ''keep'' \<and> colSet \<noteq> [] then
            ret (map (\<lambda>r. pickSet h r colSet) transformed)
          else if selectMode rt = ''drop'' \<and> colSet \<noteq> [] then
            ret (map (\<lambda>r. omitSet h r colSet) transformed)
          else ret transformed)
      else ret transformed)"

text \<open>The loop that renames every row of a sheet with one list, used by stages 2b and 2c.\<close>

fun renameRows ::
  "('n, 'w, 'x) host_scheme \<Rightarrow> 'n jsval \<Rightarrow> string \<Rightarrow> ('n, 'y) renameItem_scheme list
     \<Rightarrow> 'n obj list \<Rightarrow> ('n obj list, 'w) io" where
  "renameRows h msg sheet lst [] = ret []"
| "renameRows h msg sheet lst (r # rs) =
     bnd (renameWithList h r msg sheet lst) (\<lambda>r'.
       bnd (renameRows h msg sheet lst rs) (\<lambda>rs'. ret (r' # rs')))"

definition staticRenameStage ::
  "('n, 'w, 'x) host_scheme \<Rightarrow> 'n schema \<Rightarrow> 'n jsval \<Rightarrow> string \<Rightarrow> 'n obj list
     \<Rightarrow> ('n obj list, 'w) io" where
  "staticRenameStage h rt msg sheet transformed =
     (if renameList rt \<noteq> [] then renameRows h msg sheet (renameList rt) transformed
      else ret transformed)"

definition conditionalRenameStage ::
  "('n, 'w, 'x) host_scheme \<Rightarrow> 'n schema \<Rightarrow> 'n jsval \<Rightarrow> string \<Rightarrow> 'n obj list
     \<Rightarrow> ('n obj list, 'w) io" where
  "conditionalRenameStage h rt msg sheet transformed =
     (if enabled (conditionalRename rt) then
        bnd (conditionTrue h rt msg) (\<lambda>c.
          if c then renameRows h msg sheet (condList (conditionalRename rt)) transformed
          else ret transformed)
      else ret transformed)"

text \<open>Stage 2d, derive: a failed expression is ignored.\<close>

fun deriveRow ::
  "('n, 'w, 'x) host_scheme \<Rightarrow> 'n jsval \<Rightarrow> string \<Rightarrow> 'n obj \<Rightarrow> 'n deriveItem list
     \<Rightarrow> 'n obj \<times> bool \<Rightarrow> ('n obj \<times> bool, 'w) io" where
  "deriveRow h msg sheet r [] out = ret out"
| "deriveRow h msg sheet r (d # ds) out =
     (if newCol d = [] then deriveRow h msg sheet r ds out
      else if exprType d = ''jsonata'' then
        bnd (catch
               (bnd (evalJSONata h (sanitizeExpr h (if truthy h (expr d) then expr d else Str []))
                       (Obj (put ''sheet'' (Str sheet) (put ''row'' (Obj r) (spread msg)))))
                  (\<lambda>val. ret (setProp (newCol d) val out)))
               (\<lambda>e. ret out))
          (\<lambda>out'. deriveRow h msg sheet r ds out')
      else deriveRow h msg sheet r ds out)"

fun deriveRows ::
  "('n, 'w, 'x) host_scheme \<Rightarrow> 'n jsval \<Rightarrow> string \<Rightarrow> 'n deriveItem list \<Rightarrow> 'n obj list
     \<Rightarrow> ('n obj list, 'w) io" where
  "deriveRows h msg sheet ds [] = ret []"
| "deriveRows h msg sheet ds (r # rs) =
     bnd (deriveRow h msg sheet r ds (assign [] r, True)) (\<lambda>out.
       bnd (deriveRows h msg sheet ds rs) (\<lambda>rest. ret (fst out # rest)))"

definition deriveStage ::
  "('n, 'w, 'x) host_scheme \<Rightarrow> 'n schema \<Rightarrow> 'n jsval \<Rightarrow> string \<Rightarrow> 'n obj list
     \<Rightarrow> ('n obj list, 'w) io" where
  "deriveStage h rt msg sheet transformed =
     (if deriveList rt \<noteq> [] then deriveRows h msg sheet (deriveList rt) transformed
      else ret transformed)"

text \<open>The variables of the handler that the loops update.\<close>

record 'n acc =
  resultMap :: "'n obj"
  fileCount :: nat
  sheetCount :: nat
  rowIn :: nat
  rowOut :: nat

text \<open>
  The assignment \<open>target[k] = v\<close> on a value that inherits the accessor. On an array only an
  element can be set here.
\<close>

fun assignProp :: "'n jsval \<Rightarrow> string \<Rightarrow> 'n jsval \<Rightarrow> 'n jsval" where
  "assignProp (Obj kvs) k v = Obj (setOwn k v kvs)"
| "assignProp (Arr xs) k v =
     (if k \<in> set (map indexKey [0..<length xs])
      then Arr (map (\<lambda>i. if indexKey i = k then v else xs ! i) [0..<length xs])
      else if k = indexKey (length xs) then Arr (xs @ [v])
      else Arr xs)"
| "assignProp t k v = t"

text \<open>The flat row \<open>{ _file: file, _sheet: sheetName, ...rr }\<close>.\<close>

definition flatRow :: "string \<Rightarrow> string \<Rightarrow> 'n obj \<Rightarrow> 'n obj" where
  "flatRow file sheetName rr = assign [(''_file'', Str file), (''_sheet'', Str sheetName)] rr"

text \<open>
  The end of the sheet loop: the transformed rows go into \<open>resultMap\<close>. The result map and
  the objects under its file names are created here and inherit the accessor. For the file
  name \<open>__proto__\<close> the read \<open>resultMap[file]\<close> gives \<open>Object.prototype\<close>, the sheet is
  written there, and the result map gets no property.
\<close>

definition storeSheet ::
  "('n, 'w, 'x) host_scheme \<Rightarrow> 'n schema \<Rightarrow> string \<Rightarrow> string \<Rightarrow> 'n obj list \<Rightarrow> 'n obj \<Rightarrow> 'n obj" where
  "storeSheet h rt file sheetName transformed rm =
     (if outStructure (outputCfg rt) = ''hierarchical'' then
        (let cur = get rm file;
             rm1 = setOwn file (if truthy h cur then cur else Obj []) rm
         in if has rm1 file
            then put file (assignProp (get rm1 file) sheetName (Arr (map Obj transformed))) rm1
            else rm1)
      else
        (let cur = get rm ''__flat'';
             rm1 = put ''__flat'' (if truthy h cur then cur else Arr []) rm
         in foldl (\<lambda>m rr.
                    put ''__flat''
                      (case get m ''__flat'' of
                         Arr xs \<Rightarrow> Arr (xs @ [Obj (flatRow file sheetName rr)])
                       | other \<Rightarrow> other) m)
              rm1 transformed))"

text \<open>
  Stage 2 as a whole, from the copies of the filtered rows to the rows called
  \<open>transformed\<close> when the sheet is stored: select, static rename, conditional rename,
  derive.
\<close>

definition transformRows ::
  "('n, 'w, 'x) host_scheme \<Rightarrow> 'n schema \<Rightarrow> 'n jsval \<Rightarrow> string \<Rightarrow> 'n jsval list
     \<Rightarrow> ('n obj list, 'w) io" where
  "transformRows h rt msg sheetName filtered =
     bnd (selectStage h rt msg sheetName (map spread filtered)) (\<lambda>t1.
     bnd (staticRenameStage h rt msg sheetName t1) (\<lambda>t2.
     bnd (conditionalRenameStage h rt msg sheetName t2) (\<lambda>t3.
       deriveStage h rt msg sheetName t3)))"

definition processSheet ::
  "('n, 'w, 'x) host_scheme \<Rightarrow> 'n schema \<Rightarrow> 'n jsval \<Rightarrow> string option \<Rightarrow> string option
     \<Rightarrow> string \<Rightarrow> string \<times> 'n jsval \<Rightarrow> 'n acc \<Rightarrow> ('n acc, 'w) io" where
  "processSheet h rt msg incSheet excSheet file entry a =
     (let sheetName = fst entry; rows = snd entry in
      if \<not> passNameFilters h sheetName incSheet excSheet then ret a
      else
        (let a1 = a\<lparr>sheetCount := sheetCount a + 1\<rparr> in
         case rows of
           Arr rs \<Rightarrow>
             (let a2 = a1\<lparr>rowIn := rowIn a1 + length rs\<rparr> in
              bnd (filterRows h rt msg sheetName rs) (\<lambda>filtered.
              bnd (transformRows h rt msg sheetName filtered) (\<lambda>transformed.
                ret (a2\<lparr>rowOut := rowOut a2 + length transformed,
                         resultMap := storeSheet h rt file sheetName transformed (resultMap a2)\<rparr>))))
         | _ \<Rightarrow> ret a1))"

fun processSheets ::
  "('n, 'w, 'x) host_scheme \<Rightarrow> 'n schema \<Rightarrow> 'n jsval \<Rightarrow> string option \<Rightarrow> string option
     \<Rightarrow> string \<Rightarrow> (string \<times> 'n jsval) list \<Rightarrow> 'n acc \<Rightarrow> ('n acc, 'w) io" where
  "processSheets h rt msg incSheet excSheet file [] a = ret a"
| "processSheets h rt msg incSheet excSheet file (entry # es) a =
     bnd (processSheet h rt msg incSheet excSheet file entry a)
       (\<lambda>a'. processSheets h rt msg incSheet excSheet file es a')"

text \<open>One round of the file loop: lock files are skipped before anything is counted.\<close>

definition processFile ::
  "('n, 'w, 'x) host_scheme \<Rightarrow> 'n schema \<Rightarrow> 'n jsval \<Rightarrow> string option \<Rightarrow> string option
     \<Rightarrow> string \<times> 'n jsval \<Rightarrow> 'n acc \<Rightarrow> ('n acc, 'w) io" where
  "processFile h rt msg incSheet excSheet entry a =
     (let file = fst entry; sheets = snd entry;
          base = basename h (if file = [] then [] else file)
      in
      if startsWith base ''~$'' then ret a
      else
        processSheets h rt msg incSheet excSheet file
          (entries (if truthy h sheets then sheets else Obj []))
          (a\<lparr>fileCount := fileCount a + 1\<rparr>))"

fun processFiles ::
  "('n, 'w, 'x) host_scheme \<Rightarrow> 'n schema \<Rightarrow> 'n jsval \<Rightarrow> string option \<Rightarrow> string option
     \<Rightarrow> (string \<times> 'n jsval) list \<Rightarrow> 'n acc \<Rightarrow> ('n acc, 'w) io" where
  "processFiles h rt msg incSheet excSheet [] a = ret a"
| "processFiles h rt msg incSheet excSheet (entry # es) a =
     bnd (processFile h rt msg incSheet excSheet entry a)
       (\<lambda>a'. processFiles h rt msg incSheet excSheet es a')"

text \<open>
  The output object. The counters are whole numbers; \<open>rowIn ? (rowOut/rowIn) : null\<close> tests
  the counter against zero.
\<close>

definition summaryOf :: "('n, 'w, 'x) host_scheme \<Rightarrow> 'n acc \<Rightarrow> 'n obj" where
  "summaryOf h a =
     [(''fileCount'', Num (numOfNat h (fileCount a))),
      (''sheetCount'', Num (numOfNat h (sheetCount a))),
      (''rowIn'', Num (numOfNat h (rowIn a))),
      (''rowOut'', Num (numOfNat h (rowOut a))),
      (''filteredRatio'',
         if rowIn a \<noteq> 0 then Num (numDiv h (numOfNat h (rowOut a)) (numOfNat h (rowIn a)))
         else Null)]"

definition outObjOf :: "('n, 'w, 'x) host_scheme \<Rightarrow> 'n schema \<Rightarrow> 'n acc \<Rightarrow> 'n obj" where
  "outObjOf h rt a =
     (let dataPart =
            (if outStructure (outputCfg rt) = ''hierarchical'' then Obj (resultMap a)
             else (let f = get (resultMap a) ''__flat'' in if truthy h f then f else Arr []))
      in
      if includeSummary (outputCfg rt) then
        [(''data'', dataPart),
         (''summary'', Obj (summaryOf h a)),
         (''rules'', Obj [(''logic'', Str (filterLogic rt)),
                          (''count'', Num (numOfNat h (length (rules rt))))])]
      else [(''data'', dataPart)])"

text \<open>\<open>setOutput\<close>: the message after the write, the context stores being part of the world.\<close>

fun setPath :: "('n, 'w, 'x) host_scheme \<Rightarrow> 'n jsval \<Rightarrow> string list \<Rightarrow> 'n jsval \<Rightarrow> 'n jsval" where
  "setPath h cur [] v = cur"
| "setPath h cur [k] v = assignProp cur k v"
| "setPath h cur (k # k' # ks) v =
     (let child = member h cur k;
          child1 = (if \<not> isObjectType child \<or> child = Null then Obj [] else child)
      in assignProp cur k (setPath h child1 (k' # ks) v))"

definition setOutput ::
  "('n, 'w, 'x) host_scheme \<Rightarrow> 'n jsval \<Rightarrow> 'n jsval \<Rightarrow> string \<Rightarrow> string \<Rightarrow> ('n jsval, 'w) io" where
  "setOutput h msg v scope pathStr =
     (if scope = ''msg'' then lift (setMessageProperty h msg pathStr v)
      else if \<not> hasContext h scope then lift (setMessageProperty h msg pathStr v)
      else if pathStr = [] \<or> trim h pathStr = [] then
        bnd (effect (contextSet h scope ''xlsxFilter'' v)) (\<lambda>_. ret msg)
      else
        (case splitDots [] pathStr of
           [] \<Rightarrow> bnd (effect (contextSet h scope ''xlsxFilter'' v)) (\<lambda>_. ret msg)
         | [rootKey] \<Rightarrow> bnd (effect (contextSet h scope rootKey v)) (\<lambda>_. ret msg)
         | rootKey # parts \<Rightarrow>
             bnd (\<lambda>w. (contextGet h scope (Str rootKey) w, w)) (\<lambda>got.
               let rootObj = (if \<not> isObjectType got \<or> got = Null then Obj [] else got) in
               bnd (effect (contextSet h scope rootKey (setPath h rootObj parts v)))
                 (\<lambda>_. ret msg))))"

text \<open>
  The handler. Its outcome is \<open>Sent m\<close> when it reaches \<open>send(msg)\<close> and \<open>Failed e\<close> when the
  \<open>catch\<close> block reports \<open>e\<close> with \<open>node.error\<close> and \<open>done(err)\<close>.
\<close>

datatype 'n outcome = Sent "'n jsval" | Failed exn

definition inputInvalid :: "('n, 'w, 'x) host_scheme \<Rightarrow> 'n jsval \<Rightarrow> bool" where
  "inputInvalid h inputData =
     (\<not> truthy h inputData \<or> \<not> isObjectType inputData \<or> \<not> truthy h (member h inputData ''data''))"

definition resolveInput ::
  "('n, 'w, 'x) host_scheme \<Rightarrow> 'n schema \<Rightarrow> 'n jsval \<Rightarrow> ('n jsval, 'w) io" where
  "resolveInput h rt msg =
     (let inputRoot = getRootContainer msg (inputPathType rt) in
      if (case inputRoot of MsgRoot m \<Rightarrow> truthy h m | ContextRoot _ \<Rightarrow> True)
      then deepGet h inputRoot (inputPath rt)
      else ret Undefined)"

definition invalidInput :: exn where
  "invalidInput =
     Error (''Input missing or invalid. Expect an object with a '' @ [CHR 0x27] @ ''data''
            @ [CHR 0x27] @ '' map under the configured path.'')"

definition emptyAcc :: "'n acc" where
  "emptyAcc = \<lparr>resultMap = [], fileCount = 0, sheetCount = 0, rowIn = 0, rowOut = 0\<rparr>"

definition runBatch ::
  "('n, 'w, 'x) host_scheme \<Rightarrow> 'n schema \<Rightarrow> 'n jsval \<Rightarrow> ('n jsval, 'w) io" where
  "runBatch h rt msg =
     bnd (effect (nodeStatus h ''blue'' ''dot'' ''processing...'')) (\<lambda>_.
     bnd (resolveInput h rt msg) (\<lambda>inputData.
       if inputInvalid h inputData then
         thr invalidInput
       else
         (let incSheet = safeRegex h (includeSheetRegex rt);
              excSheet = safeRegex h (excludeSheetRegex rt)
          in
          bnd (processFiles h rt msg incSheet excSheet
                 (entries (member h inputData ''data'')) emptyAcc) (\<lambda>a.
          bnd (setOutput h msg (Obj (outObjOf h rt a))
                 (targetType (outputCfg rt)) (targetPath (outputCfg rt))) (\<lambda>msg1.
          bnd (effect (nodeStatus h ''green'' ''dot''
                         (numToString h (numOfNat h (rowOut a)) @ ''/''
                          @ numToString h (numOfNat h (rowIn a)) @ '' rows''))) (\<lambda>_.
            ret msg1))))))"

definition onInput ::
  "('n, 'w, 'x) host_scheme \<Rightarrow> 'n schema \<Rightarrow> 'n jsval \<Rightarrow> 'w \<Rightarrow> 'n outcome \<times> 'w" where
  "onInput h rt msg w =
     (case runBatch h rt msg w of
        (Inr msg1, w1) \<Rightarrow> (Sent msg1, w1)
      | (Inl err, w1) \<Rightarrow> (Failed err, nodeStatus h ''red'' ''ring'' (errText err) w1))"

section \<open>Notions used to state the properties\<close>

text \<open>
  \<open>allEvaluate ev b rs w\<close>: evaluating the rules \<open>rs\<close> one after the other from the world
  \<open>w\<close>, every one of them returns \<open>b\<close>; the result is the world after the last one.
  \<open>firstAt ev b rs w i\<close>: rule \<open>i\<close> is the first one that returns \<open>b\<close>, all rules before
  it having returned the opposite; the result is the world right after rule \<open>i\<close>.
\<close>

fun allEvaluate :: "('r \<Rightarrow> (bool, 'w) io) \<Rightarrow> bool \<Rightarrow> 'r list \<Rightarrow> 'w \<Rightarrow> 'w option" where
  "allEvaluate ev b [] w = Some w"
| "allEvaluate ev b (r # rs) w =
     (case ev r w of
        (Inl e, w') \<Rightarrow> None
      | (Inr b', w') \<Rightarrow> if b' = b then allEvaluate ev b rs w' else None)"

definition firstAt :: "('r \<Rightarrow> (bool, 'w) io) \<Rightarrow> bool \<Rightarrow> 'r list \<Rightarrow> 'w \<Rightarrow> nat \<Rightarrow> 'w option" where
  "firstAt ev b rs w i =
     (case allEvaluate ev (\<not> b) (take i rs) w of
        None \<Rightarrow> None
      | Some w1 \<Rightarrow> if fst (ev (rs ! i) w1) = Inr b then Some (snd (ev (rs ! i) w1)) else None)"

text \<open>The normal form under which the tolerant lookup compares names.\<close>

definition normName :: "('n, 'w, 'x) host_scheme \<Rightarrow> string \<Rightarrow> string" where
  "normName h s = toLowerCase h (trim h s)"

text \<open>The key that \<open>pickSet\<close> keeps for a wanted name: the key found, unless it is empty.\<close>

definition pickedKey :: "('n, 'w, 'x) host_scheme \<Rightarrow> string list \<Rightarrow> string \<Rightarrow> string option" where
  "pickedKey h ks want =
     (case pickKey h ks want of None \<Rightarrow> None | Some k \<Rightarrow> if k \<noteq> [] then Some k else None)"







definition isLockFile :: "('n, 'w, 'x) host_scheme \<Rightarrow> string \<Rightarrow> bool" where
  "isLockFile h file = startsWith (basename h file) ''~$''"

section \<open>A small host for the examples\<close>

text \<open>
  Numbers are rationals or \<open>NaN\<close> (\<open>None\<close>); strings are ASCII; a pattern without
  metacharacters is searched as a substring, a pattern with an opening parenthesis does not
  compile; paths are POSIX paths. The world is a clock that every expression evaluation
  advances, the texts of the statuses set so far and one store for both context scopes.
  A message or context property is named by a plain key, without dots. The evaluator knows
  three expressions.
\<close>

record 'n world =
  clock :: nat
  statuses :: "string list"
  store :: "(string \<times> 'n jsval) list"

definition asciiLower :: "string \<Rightarrow> string" where
  "asciiLower s =
     map (\<lambda>c. case map_of (zip ''ABCDEFGHIJKLMNOPQRSTUVWXYZ'' ''abcdefghijklmnopqrstuvwxyz'') c of
                 Some d \<Rightarrow> d | None \<Rightarrow> c) s"

definition asciiSpace :: "char \<Rightarrow> bool" where
  "asciiSpace c = (c \<in> set [CHR '' '', CHR 0x09, CHR 0x0A, CHR 0x0D])"

definition asciiTrim :: "string \<Rightarrow> string" where
  "asciiTrim s = rev (dropWhile asciiSpace (rev (dropWhile asciiSpace s)))"

definition posixBasename :: "string \<Rightarrow> string" where
  "posixBasename p =
     rev (takeWhile (\<lambda>c. c \<noteq> CHR ''/'') (dropWhile (\<lambda>c. c = CHR ''/'') (rev p)))"

fun parseNat :: "nat \<Rightarrow> string \<Rightarrow> nat option" where
  "parseNat acc [] = Some acc"
| "parseNat acc (c # cs) =
     (case map_of (zip ''0123456789'' [0, 1, 2, 3, 4, 5, 6, 7, 8, 9]) c of
        None \<Rightarrow> None
      | Some d \<Rightarrow> parseNat (10 * acc + d) cs)"

definition demoToNumber :: "rat option jsval \<Rightarrow> rat option" where
  "demoToNumber v =
     (case v of
        Num n \<Rightarrow> n
      | Str s \<Rightarrow> (if asciiTrim s = [] then Some 0
                  else map_option of_nat (parseNat 0 (asciiTrim s)))
      | Bool b \<Rightarrow> Some (if b then 1 else 0)
      | Null \<Rightarrow> Some 0
      | _ \<Rightarrow> None)"

definition demoJSONata ::
  "string \<Rightarrow> rat option jsval \<Rightarrow> rat option world \<Rightarrow> (exn + rat option jsval) \<times> rat option world" where
  "demoJSONata src ctx w =
     (if src = ''true'' then Inr (Bool True)
      else if src = ''false'' then Inr (Bool False)
      else if src = ''$millis() % 2 = 0'' then Inr (Bool (even (clock w)))
      else Inl (Error ''unknown expression''),
      w\<lparr>clock := Suc (clock w)\<rparr>)"

definition demoHost :: "(rat option, rat option world) host" where
  "demoHost =
     \<lparr>numTruthy = (\<lambda>n. n \<noteq> None \<and> n \<noteq> Some 0),
      numToString = (\<lambda>n. case n of None \<Rightarrow> ''NaN''
                        | Some q \<Rightarrow> if q = of_int \<lfloor>q\<rfloor> \<and> 0 \<le> q then indexKey (nat \<lfloor>q\<rfloor>) else ''?''),
      numOfNat = (\<lambda>k. Some (of_nat k)),
      numDiv = (\<lambda>a b. case (a, b) of (Some x, Some y) \<Rightarrow> if y = 0 then None else Some (x / y)
                       | _ \<Rightarrow> None),
      numIsNaN = (\<lambda>n. n = None),
      numLess = (\<lambda>a b. case (a, b) of (Some x, Some y) \<Rightarrow> x < y | _ \<Rightarrow> False),
      numLessEq = (\<lambda>a b. case (a, b) of (Some x, Some y) \<Rightarrow> x \<le> y | _ \<Rightarrow> False),
      toNumber = demoToNumber,
      looseEq = (\<lambda>a b. a = b),
      trim = asciiTrim,
      toLowerCase = asciiLower,
      stripInvisible = (\<lambda>s. s),
      regexTest = (\<lambda>p s. if CHR ''('' \<in> set p then None else Some (strIncludes s p)),
      basename = posixBasename,
      evaluateJSONata = demoJSONata,
      getMessageProperty = (\<lambda>msg k. case k of Str p \<Rightarrow> Inr (get (entries msg) p)
                                      | _ \<Rightarrow> Inl (Error ''Invalid property expression'')),
      setMessageProperty = (\<lambda>msg p v. Inr (assignProp msg p v)),
      hasContext = (\<lambda>scope. scope = ''flow'' \<or> scope = ''global''),
      contextGet = (\<lambda>scope k w. case k of Str p \<Rightarrow> Inr (get (store w) p)
                                   | _ \<Rightarrow> Inl (Error ''Invalid key'')),
      contextSet = (\<lambda>scope k v w. w\<lparr>store := put k v (store w)\<rparr>),
      envGet = (\<lambda>k. Undefined),
      nodeStatus = (\<lambda>fill shape text w. w\<lparr>statuses := statuses w @ [text]\<rparr>)\<rparr>"

definition world0 :: "rat option world" where
  "world0 = \<lparr>clock = 0, statuses = [], store = []\<rparr>"

definition plainRule :: "rat option rule" where
  "plainRule =
     \<lparr>sheetScope = Str [], sheetScopeType = ''str'', col = Str [], colType = ''str'',
      op = ''=='', rhsType = ''str'', rhs = Str [], caseSensitive = Bool False,
      coerce = Bool True\<rparr>"

definition plainSchema :: "rat option schema" where
  "plainSchema =
     \<lparr>inputPath = ''data'', inputPathType = ''msg'',
      includeSheetRegex = [], excludeSheetRegex = [],
      filterLogic = ''AND'', rules = [],
      selectMode = ''none'', selectList = [], renameList = [],
      conditionalRename =
        \<lparr>enabled = False, whenLhsType = ''msg'', whenLhs = Str [], condOp = ''=='',
         condRhsType = ''str'', condRhs = Str [], condList = []\<rparr>,
      deriveList = [],
      outputCfg = \<lparr>targetType = ''msg'', targetPath = ''filtered'',
                   outStructure = ''hierarchical'', includeSummary = True\<rparr>\<rparr>"

text \<open>The rules, schemas, rows and messages of the examples.\<close>

definition exprRule :: "string \<Rightarrow> rat option rule" where
  "exprRule src = plainRule\<lparr>op := ''jsonata'', rhs := Str src\<rparr>"

definition missingColRule :: "rat option rule" where
  "missingColRule = plainRule\<lparr>col := Str ''cols'', colType := ''msg''\<rparr>"









definition msgOf :: "rat option jsval \<Rightarrow> rat option jsval" where
  "msgOf files = Obj [(''data'', Obj [(''data'', files)])]"

definition oneSheet :: "rat option jsval" where
  "oneSheet = Obj [(''Sheet1'', Arr [Obj [(''A'', Str ''1'')]])]"

definition flatSchema :: "rat option schema" where
  "flatSchema = plainSchema\<lparr>outputCfg := (outputCfg plainSchema)\<lparr>outStructure := ''flat''\<rparr>\<rparr>"

definition taggedRow :: "rat option obj" where
  "taggedRow = [(''A'', Str ''1''), (''_file'', Str ''mine'')]"

definition amountRule :: "rat option rule" where
  "amountRule = plainRule\<lparr>col := Str ''Amount'', op := ''>='', rhs := Str ''8''\<rparr>"

definition amountSchema :: "rat option schema" where
  "amountSchema = plainSchema\<lparr>rules := [amountRule]\<rparr>"

definition amountBook :: "rat option jsval" where
  "amountBook =
     Obj [(''Book1.xlsx'',
           Obj [(''Sheet1'',
                 Arr [Obj [(''Status'', Str ''OK''), (''Amount'', Str ''10'')],
                      Obj [(''Status'', Str ''NO''), (''Amount'', Str ''5'')]])])]"

definition amountAcc :: "rat option acc" where
  "amountAcc =
     \<lparr>resultMap =
        [(''Book1.xlsx'',
          Obj [(''Sheet1'', Arr [Obj [(''Status'', Str ''OK''), (''Amount'', Str ''10'')]])])],
      fileCount = 1, sheetCount = 1, rowIn = 2, rowOut = 1\<rparr>"




section \<open>Evaluation of the examples\<close>

text \<open>The definitions that the simplifier unfolds to run an example.\<close>

lemmas demo_defs =
  demoHost_def demoJSONata_def world0_def plainRule_def plainSchema_def exprRule_def
  asciiTrim_def asciiSpace_def asciiLower_def posixBasename_def demoToNumber_def

lemmas io_defs = bnd_def ret_def thr_def catch_def lift_def effect_def

lemmas rule_defs =
  evalRule_def ruleAppliesTo_def evalJSONata_def sanitizeExpr_def resolveColumnName_def
  resolveRHS_def resolveDynamic_def columnNames_def

lemmas select_defs = pickSet_def pickKey_def setProp_def has_def keys_def get_def normName_def


lemmas input_defs =
  resolveInput_def getRootContainer_def inputInvalid_def member_def get_def has_def keys_def

lemmas stage_defs =
  processFile_def processSheet_def transformRows_def passNameFilters_def rowPasses_def
  selectStage_def
  staticRenameStage_def conditionalRenameStage_def deriveStage_def storeSheet_def
  setOwn_def setProp_def has_def keys_def
  spread_def assign_def get_def emptyAcc_def startsWith_def

lemmas batch_defs =
  onInput_def runBatch_def setOutput_def outObjOf_def summaryOf_def safeRegex_def
  setOwn_def setProp_def


section \<open>The row filter\<close>

lemma firstAt_0:
  "firstAt ev b (r # rs) w 0 = (if fst (ev r w) = Inr b then Some (snd (ev r w)) else None)"
  by (simp add: firstAt_def)

lemma firstAt_Suc:
  "firstAt ev b (r # rs) w (Suc i) =
     (case ev r w of (Inl e, w') \<Rightarrow> None
      | (Inr b', w') \<Rightarrow> if b' = (\<not> b) then firstAt ev b rs w' i else None)"
  by (simp add: firstAt_def split: prod.splits sum.splits option.splits)

lemma andRules_true_iff: "fst (andRules ev rs w) = Inr True \<longleftrightarrow> allEvaluate ev True rs w \<noteq> None"
  by (induction rs arbitrary: w) (auto simp: bnd_def ret_def split: prod.splits sum.splits)

lemma andRules_first_false:
  "i < length rs \<Longrightarrow> firstAt ev False rs w i = Some w' \<Longrightarrow> andRules ev rs w = (Inr False, w')"
proof (induction rs arbitrary: w i)
  case Nil
  then show ?case by simp
next
  case (Cons r rs)
  show ?case
  proof (cases i)
    case 0
    with Cons.prems show ?thesis
      by (cases "ev r w") (auto simp: firstAt_0 bnd_def ret_def split: if_splits sum.splits)
  next
    case (Suc j)
    with Cons.prems Cons.IH [of j] show ?thesis
      by (cases "ev r w") (auto simp: firstAt_Suc bnd_def ret_def split: if_splits sum.splits)
  qed
qed

lemma orRules_first_true:
  "i < length rs \<Longrightarrow> firstAt ev True rs w i = Some w' \<Longrightarrow> orRules ev rs w = (Inr True, w')"
proof (induction rs arbitrary: w i)
  case Nil
  then show ?case by simp
next
  case (Cons r rs)
  show ?case
  proof (cases i)
    case 0
    with Cons.prems show ?thesis
      by (cases "ev r w") (auto simp: firstAt_0 bnd_def ret_def split: if_splits sum.splits)
  next
    case (Suc j)
    with Cons.prems Cons.IH [of j] show ?thesis
      by (cases "ev r w") (auto simp: firstAt_Suc bnd_def ret_def split: if_splits sum.splits)
  qed
qed

lemma orRules_true_iff:
  "fst (orRules ev rs w) = Inr True \<longleftrightarrow> (\<exists>i<length rs. firstAt ev True rs w i \<noteq> None)"
proof (induction rs arbitrary: w)
  case Nil
  then show ?case by (simp add: ret_def)
next
  case (Cons r rs)
  obtain res w1 where ev: "ev r w = (res, w1)" by (cases "ev r w")
  show ?case
  proof (cases res)
    case (Inl e)
    have "\<not> (\<exists>i<length (r # rs). firstAt ev True (r # rs) w i \<noteq> None)"
    proof
      assume "\<exists>i<length (r # rs). firstAt ev True (r # rs) w i \<noteq> None"
      then obtain i where "firstAt ev True (r # rs) w i \<noteq> None" by blast
      then show False using ev Inl by (cases i) (simp_all add: firstAt_0 firstAt_Suc)
    qed
    then show ?thesis using ev Inl by (simp add: bnd_def)
  next
    case (Inr b)
    show ?thesis
    proof (cases b)
      case True
      have "firstAt ev True (r # rs) w 0 \<noteq> None" using ev Inr True by (simp add: firstAt_0)
      then have "\<exists>i<length (r # rs). firstAt ev True (r # rs) w i \<noteq> None" by auto
      then show ?thesis using ev Inr True by (simp add: bnd_def ret_def)
    next
      case False
      have "(\<exists>i<length (r # rs). firstAt ev True (r # rs) w i \<noteq> None)
            \<longleftrightarrow> (\<exists>j<length rs. firstAt ev True rs w1 j \<noteq> None)"
      proof
        assume "\<exists>i<length (r # rs). firstAt ev True (r # rs) w i \<noteq> None"
        then obtain i where i: "i < length (r # rs)" "firstAt ev True (r # rs) w i \<noteq> None" by blast
        then obtain j where "i = Suc j" using ev Inr False by (cases i) (simp_all add: firstAt_0)
        with i ev Inr False show "\<exists>j<length rs. firstAt ev True rs w1 j \<noteq> None"
          by (auto simp: firstAt_Suc)
      next
        assume "\<exists>j<length rs. firstAt ev True rs w1 j \<noteq> None"
        then obtain j where "j < length rs" "firstAt ev True rs w1 j \<noteq> None" by blast
        then have "Suc j < length (r # rs)" "firstAt ev True (r # rs) w (Suc j) \<noteq> None"
          using ev Inr False by (simp_all add: firstAt_Suc)
        then show "\<exists>i<length (r # rs). firstAt ev True (r # rs) w i \<noteq> None" by blast
      qed
      then show ?thesis using ev Inr False Cons.IH [of w1] by (simp add: bnd_def)
    qed
  qed
qed

lemma evalRule_out_of_scope:
  "ruleAppliesTo h msg r sheet row w = (Inr False, w') \<Longrightarrow>
   evalRule h row msg sheet r w = (Inr True, w')"
  by (simp add: evalRule_def bnd_def ret_def)

text \<open>
  Claim C1. The row filter includes the row in these cases and no others: the rule list is
  empty; or the logic is AND (anything but \<open>OR\<close>) and every rule, evaluated in order,
  returns true; or the logic is \<open>OR\<close> and some rule returns true, the rules before it having
  returned false. A rule whose sheet scope does not match returns true. The loops stop
  early: under AND at the first rule that returns false, under \<open>OR\<close> at the first rule that
  returns true, and the world they leave is the one right after that rule, so no later rule
  is evaluated.
\<close>

theorem rowPasses_logic:
  "(rules rt = [] \<longrightarrow> rowPasses h rt row msg sheet w = (Inr True, w))
   \<and> (filterLogic rt \<noteq> ''OR'' \<longrightarrow>
        (fst (rowPasses h rt row msg sheet w) = Inr True)
          = (allEvaluate (evalRule h row msg sheet) True (rules rt) w \<noteq> None))
   \<and> (filterLogic rt \<noteq> ''OR'' \<and> i < length (rules rt)
        \<and> firstAt (evalRule h row msg sheet) False (rules rt) w i = Some w'
        \<longrightarrow> rowPasses h rt row msg sheet w = (Inr False, w'))
   \<and> (filterLogic rt = ''OR'' \<longrightarrow>
        (fst (rowPasses h rt row msg sheet w) = Inr True)
          = (rules rt = []
             \<or> (\<exists>j<length (rules rt). firstAt (evalRule h row msg sheet) True (rules rt) w j \<noteq> None)))
   \<and> (filterLogic rt = ''OR'' \<and> i < length (rules rt)
        \<and> firstAt (evalRule h row msg sheet) True (rules rt) w i = Some w'
        \<longrightarrow> rowPasses h rt row msg sheet w = (Inr True, w'))
   \<and> (ruleAppliesTo h msg r sheet row w = (Inr False, w')
        \<longrightarrow> evalRule h row msg sheet r w = (Inr True, w'))"
proof (intro conjI impI)
  assume "rules rt = []"
  then show "rowPasses h rt row msg sheet w = (Inr True, w)"
    by (simp add: rowPasses_def ret_def)
next
  assume "filterLogic rt \<noteq> ''OR''"
  then show "(fst (rowPasses h rt row msg sheet w) = Inr True)
          = (allEvaluate (evalRule h row msg sheet) True (rules rt) w \<noteq> None)"
    by (cases "rules rt = []") (simp_all add: rowPasses_def ret_def andRules_true_iff)
next
  assume "filterLogic rt \<noteq> ''OR'' \<and> i < length (rules rt)
        \<and> firstAt (evalRule h row msg sheet) False (rules rt) w i = Some w'"
  then show "rowPasses h rt row msg sheet w = (Inr False, w')"
    using andRules_first_false [of i "rules rt" "evalRule h row msg sheet" w w']
    by (auto simp: rowPasses_def)
next
  assume "filterLogic rt = ''OR''"
  then show "(fst (rowPasses h rt row msg sheet w) = Inr True)
          = (rules rt = []
             \<or> (\<exists>j<length (rules rt). firstAt (evalRule h row msg sheet) True (rules rt) w j \<noteq> None))"
    by (cases "rules rt = []") (simp_all add: rowPasses_def ret_def orRules_true_iff)
next
  assume "filterLogic rt = ''OR'' \<and> i < length (rules rt)
        \<and> firstAt (evalRule h row msg sheet) True (rules rt) w i = Some w'"
  then show "rowPasses h rt row msg sheet w = (Inr True, w')"
    using orRules_first_true [of i "rules rt" "evalRule h row msg sheet" w w']
    by (auto simp: rowPasses_def)
next
  assume "ruleAppliesTo h msg r sheet row w = (Inr False, w')"
  then show "evalRule h row msg sheet r w = (Inr True, w')"
    by (rule evalRule_out_of_scope)
qed

theorem rowPasses_logic_witness:
  "filterLogic (plainSchema\<lparr>rules := [exprRule ''false'', exprRule ''true'']\<rparr>) \<noteq> ''OR''
   \<and> firstAt (evalRule demoHost (Obj []) (Obj []) ''S'') False [exprRule ''false'', exprRule ''true'']
        world0 0 = Some (world0\<lparr>clock := 1\<rparr>)
   \<and> rowPasses demoHost (plainSchema\<lparr>rules := [exprRule ''false'', exprRule ''true'']\<rparr>)
        (Obj []) (Obj []) ''S'' world0 = (Inr False, world0\<lparr>clock := 1\<rparr>)
   \<and> firstAt (evalRule demoHost (Obj []) (Obj []) ''S'') True [exprRule ''true'', exprRule ''false'']
        world0 0 = Some (world0\<lparr>clock := 1\<rparr>)
   \<and> rowPasses demoHost
        (plainSchema\<lparr>filterLogic := ''OR'', rules := [exprRule ''true'', exprRule ''false'']\<rparr>)
        (Obj []) (Obj []) ''S'' world0 = (Inr True, world0\<lparr>clock := 1\<rparr>)
   \<and> rowPasses demoHost plainSchema (Obj []) (Obj []) ''S'' world0 = (Inr True, world0)"
proof -
  let ?ev = "evalRule demoHost (Obj []) (Obj []) ''S''"
  let ?A = "plainSchema\<lparr>rules := [exprRule ''false'', exprRule ''true'']\<rparr>"
  let ?O = "plainSchema\<lparr>filterLogic := ''OR'', rules := [exprRule ''true'', exprRule ''false'']\<rparr>"
  have f: "?ev (exprRule ''false'') world0 = (Inr False, world0\<lparr>clock := 1\<rparr>)"
    by (simp add: rule_defs io_defs demo_defs)
  have t: "?ev (exprRule ''true'') world0 = (Inr True, world0\<lparr>clock := 1\<rparr>)"
    by (simp add: rule_defs io_defs demo_defs)
  have a: "filterLogic ?A \<noteq> ''OR''" "rules ?A = [exprRule ''false'', exprRule ''true'']"
    by (simp_all add: plainSchema_def)
  have o: "filterLogic ?O = ''OR''" "rules ?O = [exprRule ''true'', exprRule ''false'']"
    by (simp_all add: plainSchema_def)
  have e: "rules plainSchema = []" by (simp add: plainSchema_def)
  have fa: "firstAt ?ev False [exprRule ''false'', exprRule ''true''] world0 0
              = Some (world0\<lparr>clock := 1\<rparr>)"
    by (simp add: firstAt_def f)
  have fo: "firstAt ?ev True [exprRule ''true'', exprRule ''false''] world0 0
              = Some (world0\<lparr>clock := 1\<rparr>)"
    by (simp add: firstAt_def t)
  from rowPasses_logic [of ?A demoHost "Obj []" "Obj []" "''S''" world0 0 "world0\<lparr>clock := 1\<rparr>"
      plainRule]
    a fa
  have r1: "rowPasses demoHost ?A (Obj []) (Obj []) ''S'' world0 = (Inr False, world0\<lparr>clock := 1\<rparr>)"
    by simp
  from rowPasses_logic [of ?O demoHost "Obj []" "Obj []" "''S''" world0 0 "world0\<lparr>clock := 1\<rparr>"
      plainRule]
    o fo
  have r2: "rowPasses demoHost ?O (Obj []) (Obj []) ''S'' world0 = (Inr True, world0\<lparr>clock := 1\<rparr>)"
    by simp
  from rowPasses_logic [of plainSchema demoHost "Obj []" "Obj []" "''S''" world0 0 world0 plainRule] e
  have r3: "rowPasses demoHost plainSchema (Obj []) (Obj []) ''S'' world0 = (Inr True, world0)"
    by simp
  show ?thesis using a(1) fa fo r1 r2 r3 by simp
qed

text \<open>
  Claim C2. A rule whose sheet scope matches and whose comparator is not the boolean
  expression resolves its column reference first. When the resolved value gives no
  candidate name (\<open>undefined\<close>, \<open>null\<close>, an empty list, or a list of \<open>null\<close>s), the rule
  returns false: a normal return, not an exception, in the world the resolution left.
\<close>

theorem evalRule_no_columns:
  assumes "ruleAppliesTo h msg r sheet row w = (Inr True, w1)"
    and "op r \<noteq> ''jsonata''"
    and "resolveColumnName h msg r row sheet w1 = (Inr v, w2)"
    and "columnNames h v = []"
  shows "evalRule h row msg sheet r w = (Inr False, w2)
         \<and> columnNames h Undefined = [] \<and> columnNames h Null = [] \<and> columnNames h (Arr []) = []"
  using assms by (simp add: evalRule_def bnd_def ret_def columnNames_def)

theorem evalRule_no_columns_witness:
  "ruleAppliesTo demoHost (Obj []) missingColRule ''S'' (Obj [(''A'', Str ''1'')]) world0
     = (Inr True, world0)
   \<and> op missingColRule \<noteq> ''jsonata''
   \<and> resolveColumnName demoHost (Obj []) missingColRule (Obj [(''A'', Str ''1'')]) ''S'' world0
     = (Inr Undefined, world0)
   \<and> columnNames demoHost Undefined = []
   \<and> evalRule demoHost (Obj [(''A'', Str ''1'')]) (Obj []) ''S'' missingColRule world0
     = (Inr False, world0)"
proof -
  have a: "ruleAppliesTo demoHost (Obj []) missingColRule ''S'' (Obj [(''A'', Str ''1'')]) world0
     = (Inr True, world0)"
    by (simp add: ruleAppliesTo_def missingColRule_def plainRule_def ret_def)
  have b: "op missingColRule \<noteq> ''jsonata''"
    by (simp add: missingColRule_def plainRule_def)
  have c: "resolveColumnName demoHost (Obj []) missingColRule (Obj [(''A'', Str ''1'')]) ''S'' world0
     = (Inr Undefined, world0)"
    by (simp add: resolveColumnName_def resolveDynamic_def missingColRule_def plainRule_def
        lift_def demoHost_def get_def)
  have d: "columnNames demoHost Undefined = []"
    by (simp add: columnNames_def)
  from evalRule_no_columns [OF a b c d] a b c d show ?thesis by simp
qed

section \<open>Objects\<close>

lemma map_of_put: "map_of (put k v ob) = (map_of ob)(k \<mapsto> v)"
  by (induction ob) (auto simp: fun_eq_iff)

lemma keys_Nil [simp]: "keys [] = []"
  by (simp add: keys_def)

lemma keys_put_list: "keys (put k v ob) = (if k \<in> set (keys ob) then keys ob else keys ob @ [k])"
proof (induction ob)
  case Nil
  then show ?case by (simp add: keys_def)
next
  case (Cons kv ob)
  obtain k' v' where kv: "kv = (k', v')" by (cases kv)
  show ?case using Cons.IH by (simp add: kv keys_def)
qed

lemma keys_put: "set (keys (put k v ob)) = insert k (set (keys ob))"
  by (auto simp: keys_put_list)

lemma get_put: "get (put k v ob) k' = (if k' = k then v else get ob k')"
  by (simp add: get_def map_of_put)

lemma has_put: "has (put k v ob) k' = (k' = k \<or> has ob k')"
  by (auto simp: has_def keys_put)

lemma distinct_put: "distinct (keys ob) \<Longrightarrow> distinct (keys (put k v ob))"
  by (simp add: keys_put_list)

lemma find_eq: "find (\<lambda>x. x = w) ks = (if w \<in> set ks then Some w else None)"
  by (induction ks) simp_all

lemma find_in: "find P ks = Some x \<Longrightarrow> x \<in> set ks \<and> P x"
  by (induction ks) (simp_all split: if_splits)

lemma find_none: "\<forall>y \<in> set ks. \<not> P y \<Longrightarrow> find P ks = None"
  by (induction ks) simp_all

lemma find_unique:
  "x \<in> set ks \<Longrightarrow> P x \<Longrightarrow> \<forall>y \<in> set ks. P y \<longrightarrow> y = x \<Longrightarrow> find P ks = Some x"
proof (induction ks)
  case Nil
  then show ?case by simp
next
  case (Cons a ks)
  show ?case
  proof (cases "P a")
    case True
    then have "a = x" using Cons.prems(3) by simp
    then show ?thesis using True by simp
  next
    case False
    then have "x \<in> set ks" using Cons.prems(1,2) by auto
    moreover have "\<forall>y \<in> set ks. P y \<longrightarrow> y = x" using Cons.prems(3) by simp
    ultimately have "find P ks = Some x" using Cons.IH Cons.prems(2) by blast
    then show ?thesis using False by simp
  qed
qed

section \<open>Select\<close>

lemma setProp_plain: "k \<noteq> ''__proto__'' \<Longrightarrow> setProp k v ob = (put k v (fst ob), snd ob)"
  by (simp add: setProp_def)

lemma setProp_cases:
  "fst (setProp k v ob) = put k v (fst ob)
   \<or> (k = ''__proto__'' \<and> \<not> has (fst ob) k \<and> fst (setProp k v ob) = fst ob)"
  by (auto simp: setProp_def)

lemma keys_setProp_mono: "set (keys (fst ob)) \<subseteq> set (keys (fst (setProp k v ob)))"
  using setProp_cases [of k v ob] by (auto simp: keys_put)

lemma keys_setProp_upper:
  "set (keys (fst (setProp k v ob))) \<subseteq> insert k (set (keys (fst ob)))"
  using setProp_cases [of k v ob] by (auto simp: keys_put)

lemma get_setProp:
  "k' \<in> set (keys (fst (setProp k v ob)))
   \<Longrightarrow> get (fst (setProp k v ob)) k' = (if k' = k then v else get (fst ob) k')"
  using setProp_cases [of k v ob] by (auto simp: get_put has_def)

lemma distinct_setProp:
  "distinct (keys (fst ob)) \<Longrightarrow> distinct (keys (fst (setProp k v ob)))"
  using setProp_cases [of k v ob] by (auto simp: distinct_put)

lemma pickInto_pickedKey:
  "pickInto h row (want # wants) out =
     (case pickedKey h (keys row) want of
        None \<Rightarrow> pickInto h row wants out
      | Some k \<Rightarrow> pickInto h row wants (setProp k (get row k) out))"
  by (simp add: pickedKey_def split: option.splits)

lemma pickInto_cong:
  "\<forall>w \<in> set S. pickedKey h (keys r1) w = pickedKey h (keys r2) w
      \<and> (\<forall>k. pickedKey h (keys r1) w = Some k \<longrightarrow> get r1 k = get r2 k)
   \<Longrightarrow> pickInto h r1 S out = pickInto h r2 S out"
proof (induction S arbitrary: out)
  case Nil
  then show ?case by simp
next
  case (Cons w S)
  then have ih: "\<And>out. pickInto h r1 S out = pickInto h r2 S out" by simp
  from Cons.prems have e: "pickedKey h (keys r1) w = pickedKey h (keys r2) w" by simp
  show ?case
  proof (cases "pickedKey h (keys r1) w")
    case None
    then show ?thesis using e ih by (simp add: pickInto_pickedKey del: pickInto.simps)
  next
    case (Some k)
    then have "get r1 k = get r2 k" using Cons.prems by simp
    then show ?thesis using Some e ih by (simp add: pickInto_pickedKey del: pickInto.simps)
  qed
qed

lemma pickInto_mono: "set (keys (fst out)) \<subseteq> set (keys (fst (pickInto h row S out)))"
proof (induction S arbitrary: out)
  case Nil
  then show ?case by simp
next
  case (Cons w S)
  show ?case
  proof (cases "pickedKey h (keys row) w")
    case None
    then show ?thesis using Cons.IH [of out] by (simp add: pickInto_pickedKey del: pickInto.simps)
  next
    case (Some k)
    then show ?thesis
      using Cons.IH [of "setProp k (get row k) out"] keys_setProp_mono [of out k "get row k"]
      by (auto simp: pickInto_pickedKey simp del: pickInto.simps)
  qed
qed

lemma pickInto_keys_upper:
  "set (keys (fst (pickInto h row S out)))
     \<subseteq> set (keys (fst out)) \<union> {k. \<exists>w \<in> set S. pickedKey h (keys row) w = Some k}"
proof (induction S arbitrary: out)
  case Nil
  then show ?case by simp
next
  case (Cons w S)
  show ?case
  proof (cases "pickedKey h (keys row) w")
    case None
    then show ?thesis using Cons.IH [of out]
      by (auto simp: pickInto_pickedKey simp del: pickInto.simps)
  next
    case (Some k)
    then show ?thesis
      using Cons.IH [of "setProp k (get row k) out"] keys_setProp_upper [of k "get row k" out]
      by (auto simp: pickInto_pickedKey simp del: pickInto.simps)
  qed
qed

lemma pickInto_kept:
  "w \<in> set S \<Longrightarrow> pickedKey h (keys row) w = Some k \<Longrightarrow> k \<noteq> ''__proto__''
   \<Longrightarrow> k \<in> set (keys (fst (pickInto h row S out)))"
proof (induction S arbitrary: out)
  case Nil
  then show ?case by simp
next
  case (Cons a S)
  show ?case
  proof (cases "a = w")
    case True
    have "k \<in> set (keys (fst (setProp k (get row k) out)))"
      using Cons.prems(3) by (simp add: setProp_plain keys_put)
    then show ?thesis
      using True Cons.prems(2) pickInto_mono [of "setProp k (get row k) out" h row S]
      by (auto simp: pickInto_pickedKey simp del: pickInto.simps)
  next
    case False
    then have "w \<in> set S" using Cons.prems(1) by simp
    then have "\<And>out. k \<in> set (keys (fst (pickInto h row S out)))"
      using Cons.IH Cons.prems(2,3) by blast
    then show ?thesis
      by (cases "pickedKey h (keys row) a")
         (simp_all add: pickInto_pickedKey del: pickInto.simps)
  qed
qed

lemma pickInto_get:
  assumes "\<And>k. k \<in> set (keys (fst out)) \<Longrightarrow> get (fst out) k = get row k"
    and "k \<in> set (keys (fst (pickInto h row S out)))"
  shows "get (fst (pickInto h row S out)) k = get row k"
  using assms
proof (induction S arbitrary: out)
  case Nil
  then show ?case by simp
next
  case (Cons w S)
  show ?case
  proof (cases "pickedKey h (keys row) w")
    case None
    then show ?thesis using Cons by (simp add: pickInto_pickedKey del: pickInto.simps)
  next
    case (Some k')
    have "\<And>x. x \<in> set (keys (fst (setProp k' (get row k') out)))
            \<Longrightarrow> get (fst (setProp k' (get row k') out)) x = get row x"
    proof -
      fix x assume x: "x \<in> set (keys (fst (setProp k' (get row k') out)))"
      show "get (fst (setProp k' (get row k') out)) x = get row x"
      proof (cases "x = k'")
        case True
        then show ?thesis using x by (simp add: get_setProp)
      next
        case False
        then have "x \<in> set (keys (fst out))"
          using x keys_setProp_upper [of k' "get row k'" out] by auto
        then show ?thesis using False x Cons.prems(1) by (simp add: get_setProp)
      qed
    qed
    then show ?thesis using Some Cons.IH [of "setProp k' (get row k') out"] Cons.prems(2)
      by (simp add: pickInto_pickedKey del: pickInto.simps)
  qed
qed

lemma pickSet_keys_upper:
  "set (keys (pickSet h row S)) \<subseteq> {k. \<exists>w \<in> set S. pickedKey h (keys row) w = Some k}"
  using pickInto_keys_upper [of h row S "([], True)"] by (simp add: pickSet_def)

lemma pickSet_kept:
  "w \<in> set S \<Longrightarrow> pickedKey h (keys row) w = Some k \<Longrightarrow> k \<noteq> ''__proto__''
   \<Longrightarrow> k \<in> set (keys (pickSet h row S))"
  by (simp add: pickSet_def pickInto_kept)

lemma pickSet_get: "k \<in> set (keys (pickSet h row S)) \<Longrightarrow> get (pickSet h row S) k = get row k"
  unfolding pickSet_def by (rule pickInto_get) simp_all

text \<open>
  When \<open>__proto__\<close> does not become a property of the result, the assignments to it leave
  the properties as they are, and so does leaving them out.
\<close>

lemma pickInto_without_proto:
  assumes "\<not> has (fst (pickInto h r1 S o1)) ''__proto__''"
    and "fst o1 = fst o2"
    and "\<forall>w \<in> set S.
           (pickedKey h (keys r1) w = Some ''__proto__'' \<and> pickedKey h (keys r2) w = None)
           \<or> (pickedKey h (keys r1) w = pickedKey h (keys r2) w
              \<and> (\<forall>k. pickedKey h (keys r1) w = Some k
                     \<longrightarrow> k \<noteq> ''__proto__'' \<and> get r1 k = get r2 k))"
  shows "fst (pickInto h r1 S o1) = fst (pickInto h r2 S o2)"
  using assms
proof (induction S arbitrary: o1 o2)
  case Nil
  then show ?case by simp
next
  case (Cons w S)
  have rest: "\<forall>w \<in> set S.
           (pickedKey h (keys r1) w = Some ''__proto__'' \<and> pickedKey h (keys r2) w = None)
           \<or> (pickedKey h (keys r1) w = pickedKey h (keys r2) w
              \<and> (\<forall>k. pickedKey h (keys r1) w = Some k
                     \<longrightarrow> k \<noteq> ''__proto__'' \<and> get r1 k = get r2 k))"
    using Cons.prems(3) by simp
  show ?case
  proof (cases "pickedKey h (keys r1) w")
    case None
    then have n2: "pickedKey h (keys r2) w = None" using Cons.prems(3) by auto
    have "\<not> has (fst (pickInto h r1 S o1)) ''__proto__''"
      using Cons.prems(1) None by (simp add: pickInto_pickedKey del: pickInto.simps)
    then have "fst (pickInto h r1 S o1) = fst (pickInto h r2 S o2)"
      using Cons.prems(2) rest by (rule Cons.IH)
    then show ?thesis using None n2 by (simp add: pickInto_pickedKey del: pickInto.simps)
  next
    case (Some k)
    let ?o1 = "setProp k (get r1 k) o1"
    have np: "\<not> has (fst (pickInto h r1 S ?o1)) ''__proto__''"
      using Cons.prems(1) Some by (simp add: pickInto_pickedKey del: pickInto.simps)
    show ?thesis
    proof (cases "k = ''__proto__''")
      case True
      then have n2: "pickedKey h (keys r2) w = None" using Cons.prems(3) Some by auto
      have "\<not> has (fst ?o1) ''__proto__''"
        using np pickInto_mono [of ?o1 h r1 S] by (auto simp: has_def)
      then have "fst ?o1 = fst o1"
        using setProp_cases [of k "get r1 k" o1] True by (auto simp: has_put)
      then have "fst ?o1 = fst o2" using Cons.prems(2) by simp
      with np have "fst (pickInto h r1 S ?o1) = fst (pickInto h r2 S o2)"
        using rest by (rule Cons.IH)
      then show ?thesis using Some n2 by (simp add: pickInto_pickedKey del: pickInto.simps)
    next
      case False
      then have s2: "pickedKey h (keys r2) w = Some k" and g: "get r1 k = get r2 k"
        using Cons.prems(3) Some by auto
      let ?o2 = "setProp k (get r2 k) o2"
      have "fst ?o1 = fst ?o2" using False g Cons.prems(2) by (simp add: setProp_plain)
      with np have "fst (pickInto h r1 S ?o1) = fst (pickInto h r2 S ?o2)"
        using rest by (rule Cons.IH)
      then show ?thesis using Some s2 by (simp add: pickInto_pickedKey del: pickInto.simps)
    qed
  qed
qed

lemma pickedKey_in: "pickedKey h ks w = Some k \<Longrightarrow> k \<in> set ks \<and> k \<noteq> []"
  by (auto simp: pickedKey_def pickKey_def Let_def find_eq dest: find_in split: option.splits if_splits)

lemma find_unique_iff:
  assumes "\<forall>x \<in> set l. \<forall>y \<in> set l. P x \<longrightarrow> P y \<longrightarrow> x = y"
  shows "(find P l = Some k) = (k \<in> set l \<and> P k)"
proof
  assume "find P l = Some k"
  then show "k \<in> set l \<and> P k" by (rule find_in)
next
  assume k: "k \<in> set l \<and> P k"
  then have "\<forall>y \<in> set l. P y \<longrightarrow> y = k" using assms by blast
  then show "find P l = Some k" using k find_unique [of k l P] by blast
qed

lemma option_eqI: "(\<And>k. (a = Some k) = (b = Some k)) \<Longrightarrow> a = (b :: 'a option)"
  by (cases a; cases b) auto

lemma pickedKey_Some_iff:
  assumes inj: "inj_on (normName h) (set ks)" and sub: "set l \<subseteq> set ks"
  shows "(pickedKey h l w = Some k)
       = (k \<noteq> [] \<and> k \<in> set l \<and> (if w \<in> set l \<and> w \<noteq> [] then k = w else normName h k = normName h w))"
proof -
  let ?P = "\<lambda>x. toLowerCase h (trim h x) = toLowerCase h (trim h w)"
  have uniq: "\<forall>x \<in> set l. \<forall>y \<in> set l. ?P x \<longrightarrow> ?P y \<longrightarrow> x = y"
  proof (intro ballI impI)
    fix x y assume "x \<in> set l" "y \<in> set l" "?P x" "?P y"
    then have "x \<in> set ks" "y \<in> set ks" "normName h x = normName h y"
      using sub by (auto simp: normName_def)
    then show "x = y" using inj by (simp add: inj_on_def)
  qed
  have f: "(find ?P l = Some k) = (k \<in> set l \<and> ?P k)"
    using uniq by (rule find_unique_iff)
  show ?thesis
  proof (cases "w \<in> set l \<and> w \<noteq> []")
    case True
    then have "pickedKey h l w = Some w"
      by (simp add: pickedKey_def pickKey_def find_eq)
    then show ?thesis using True by auto
  next
    case False
    then have "pickedKey h l w
       = (case find ?P l of None \<Rightarrow> None | Some k \<Rightarrow> if k \<noteq> [] then Some k else None)"
      by (auto simp: pickedKey_def pickKey_def find_eq Let_def)
    then have "(pickedKey h l w = Some k) = (find ?P l = Some k \<and> k \<noteq> [])"
      by (auto split: option.splits)
    then show ?thesis using False f by (auto simp: normName_def)
  qed
qed

lemma pickedKey_subset:
  assumes inj: "inj_on (normName h) (set ks)"
    and sub: "set ks' \<subseteq> set ks"
    and kept: "\<And>k. pickedKey h ks w = Some k \<Longrightarrow> k \<in> set ks'"
  shows "pickedKey h ks' w = pickedKey h ks w"
proof (rule option_eqI)
  fix k
  have a: "(pickedKey h ks w = Some k)
       = (k \<noteq> [] \<and> k \<in> set ks \<and> (if w \<in> set ks \<and> w \<noteq> [] then k = w else normName h k = normName h w))"
    using inj by (rule pickedKey_Some_iff) simp
  have b: "(pickedKey h ks' w = Some k)
       = (k \<noteq> [] \<and> k \<in> set ks' \<and> (if w \<in> set ks' \<and> w \<noteq> [] then k = w else normName h k = normName h w))"
    using inj sub by (rule pickedKey_Some_iff)
  show "(pickedKey h ks' w = Some k) = (pickedKey h ks w = Some k)"
  proof
    assume l: "pickedKey h ks' w = Some k"
    then have k: "k \<noteq> []" "k \<in> set ks'" using b by simp_all
    show "pickedKey h ks w = Some k"
    proof (cases "w \<in> set ks \<and> w \<noteq> []")
      case True
      then have "pickedKey h ks w = Some w" by (simp add: pickedKey_def pickKey_def find_eq)
      then have "w \<in> set ks'" using kept by simp
      then have "k = w" using l b True by simp
      then show ?thesis using a True by simp
    next
      case False
      then have "\<not> (w \<in> set ks' \<and> w \<noteq> [])" using sub by auto
      then have "normName h k = normName h w" using l b by simp
      then show ?thesis using a False k sub by auto
    qed
  next
    assume r: "pickedKey h ks w = Some k"
    then have k: "k \<in> set ks'" using kept by simp
    show "pickedKey h ks' w = Some k"
    proof (cases "w \<in> set ks \<and> w \<noteq> []")
      case True
      then have "k = w" using r a by simp
      then show ?thesis using b k True r a by simp
    next
      case False
      then have "\<not> (w \<in> set ks' \<and> w \<noteq> [])" using sub by auto
      then show ?thesis using r a b k False by auto
    qed
  qed
qed

text \<open>
  Claim C7, as amended. Keeping the columns of a set twice gives the same row as keeping
  them once, for every row in which no two distinct keys have the same trimmed, lower-cased
  form, and for every column set.
\<close>

theorem pickSet_idempotent:
  assumes "inj_on (normName h) (set (keys row))"
  shows "pickSet h (pickSet h row colSet) colSet = pickSet h row colSet"
proof -
  let ?out = "pickSet h row colSet"
  have sub: "set (keys ?out) \<subseteq> set (keys row)"
    using pickSet_keys_upper [of h row colSet] pickedKey_in by fastforce
  have same: "pickedKey h (keys ?out) w = pickedKey h (keys row) w"
    if "w \<in> set colSet" and "\<And>k. pickedKey h (keys row) w = Some k \<Longrightarrow> k \<in> set (keys ?out)"
    for w
    using assms sub that(2) by (rule pickedKey_subset)
  have gt: "get ?out k = get row k" if "pickedKey h (keys ?out) w = Some k" for w k
    using pickedKey_in [OF that] by (simp add: pickSet_get)
  show ?thesis
  proof (cases "has ?out ''__proto__''
                \<or> (\<forall>w \<in> set colSet. pickedKey h (keys row) w \<noteq> Some ''__proto__'')")
    case True
    have pk: "pickedKey h (keys ?out) w = pickedKey h (keys row) w" if w: "w \<in> set colSet" for w
    proof (rule same [OF w])
      fix k assume k: "pickedKey h (keys row) w = Some k"
      show "k \<in> set (keys ?out)"
      proof (cases "k = ''__proto__''")
        case True
        then show ?thesis using \<open>has ?out ''__proto__'' \<or> _\<close> k w by (auto simp: has_def)
      next
        case False
        then show ?thesis using w k by (simp add: pickSet_kept)
      qed
    qed
    have "pickInto h ?out colSet ([], True) = pickInto h row colSet ([], True)"
      using pk gt by (intro pickInto_cong) blast
    then show ?thesis by (simp add: pickSet_def)
  next
    case False
    then have np: "\<not> has ?out ''__proto__''" by simp
    have cond: "\<forall>w \<in> set colSet.
           (pickedKey h (keys row) w = Some ''__proto__'' \<and> pickedKey h (keys ?out) w = None)
           \<or> (pickedKey h (keys row) w = pickedKey h (keys ?out) w
              \<and> (\<forall>k. pickedKey h (keys row) w = Some k
                     \<longrightarrow> k \<noteq> ''__proto__'' \<and> get row k = get ?out k))"
    proof
      fix w assume w: "w \<in> set colSet"
      show "(pickedKey h (keys row) w = Some ''__proto__'' \<and> pickedKey h (keys ?out) w = None)
           \<or> (pickedKey h (keys row) w = pickedKey h (keys ?out) w
              \<and> (\<forall>k. pickedKey h (keys row) w = Some k
                     \<longrightarrow> k \<noteq> ''__proto__'' \<and> get row k = get ?out k))"
      proof (cases "pickedKey h (keys row) w = Some ''__proto__''")
        case True
        have a: "\<And>k. (pickedKey h (keys row) w = Some k)
            = (k \<noteq> [] \<and> k \<in> set (keys row)
               \<and> (if w \<in> set (keys row) \<and> w \<noteq> [] then k = w else normName h k = normName h w))"
          using assms by (rule pickedKey_Some_iff) simp
        have b: "\<And>k. (pickedKey h (keys ?out) w = Some k)
            = (k \<noteq> [] \<and> k \<in> set (keys ?out)
               \<and> (if w \<in> set (keys ?out) \<and> w \<noteq> [] then k = w else normName h k = normName h w))"
          using assms sub by (rule pickedKey_Some_iff)
        have pr: "''__proto__'' \<in> set (keys row)" "normName h ''__proto__'' = normName h w"
          using True a [of "''__proto__''"] by (auto split: if_splits)
        have "pickedKey h (keys ?out) w = None"
        proof (rule ccontr)
          assume "pickedKey h (keys ?out) w \<noteq> None"
          then obtain k where k: "pickedKey h (keys ?out) w = Some k" by auto
          then have ko: "k \<in> set (keys ?out)" and kn: "normName h k = normName h w"
            using b [of k] by (auto split: if_splits)
          then have "k \<in> set (keys row)" using sub by auto
          then have "k = ''__proto__''"
            using assms pr kn by (simp add: inj_on_def)
          then show False using ko np by (simp add: has_def)
        qed
        then show ?thesis using True by simp
      next
        case nproto: False
        have kept: "\<And>k. pickedKey h (keys row) w = Some k \<Longrightarrow> k \<in> set (keys ?out)"
          using w nproto by (auto intro: pickSet_kept)
        have e: "pickedKey h (keys ?out) w = pickedKey h (keys row) w"
          using w kept by (rule same)
        have "\<forall>k. pickedKey h (keys row) w = Some k
                     \<longrightarrow> k \<noteq> ''__proto__'' \<and> get row k = get ?out k"
          using nproto kept by (auto simp: pickSet_get)
        then show ?thesis using e by simp
      qed
    qed
    have "\<not> has (fst (pickInto h row colSet ([], True))) ''__proto__''"
      using np by (simp add: pickSet_def)
    then have "fst (pickInto h row colSet ([], True)) = fst (pickInto h ?out colSet ([], True))"
      using _ cond by (rule pickInto_without_proto) simp
    then show ?thesis by (simp add: pickSet_def)
  qed
qed

text \<open>A row with two differently written headers, kept twice.\<close>

theorem pickSet_idempotent_witness:
  "inj_on (normName demoHost) (set (keys [('' Name '', Str ''Ann''), (''Age'', Str ''7'')]))
   \<and> pickSet demoHost [('' Name '', Str ''Ann''), (''Age'', Str ''7'')] [''name'', ''AGE'']
       = [('' Name '', Str ''Ann''), (''Age'', Str ''7'')]
   \<and> pickSet demoHost
         (pickSet demoHost [('' Name '', Str ''Ann''), (''Age'', Str ''7'')] [''name'', ''AGE''])
         [''name'', ''AGE'']
       = pickSet demoHost [('' Name '', Str ''Ann''), (''Age'', Str ''7'')] [''name'', ''AGE'']"
proof -
  have i: "inj_on (normName demoHost) (set (keys [('' Name '', Str ''Ann''), (''Age'', Str ''7'')]))"
    by (simp add: select_defs demo_defs)
  have v: "pickSet demoHost [('' Name '', Str ''Ann''), (''Age'', Str ''7'')] [''name'', ''AGE'']
       = [('' Name '', Str ''Ann''), (''Age'', Str ''7'')]"
    by (simp add: select_defs demo_defs)
  from pickSet_idempotent [OF i, of "[''name'', ''AGE'']"] i v show ?thesis by simp
qed

text \<open>
  Claim C7 as stated fails when two keys of the row differ only by case. The row
  \<open>{Name: "1", name: "2"}\<close> with the set \<open>{"name", "NAME"}\<close>: the first pass keeps \<open>name\<close>
  by exact match and then \<open>Name\<close> as the first key that fits \<open>NAME\<close>, giving
  \<open>{name: "2", Name: "1"}\<close>; in that row \<open>name\<close> is now the first key that fits \<open>NAME\<close>, so
  the second pass keeps only \<open>{name: "2"}\<close>.
\<close>

theorem pickSet_twice_differs:
  "pickSet demoHost [(''Name'', Str ''1''), (''name'', Str ''2'')] [''name'', ''NAME'']
     = [(''name'', Str ''2''), (''Name'', Str ''1'')]
   \<and> pickSet demoHost
         (pickSet demoHost [(''Name'', Str ''1''), (''name'', Str ''2'')] [''name'', ''NAME''])
         [''name'', ''NAME'']
     = [(''name'', Str ''2'')]"
  by (simp add: select_defs demo_defs)









section \<open>Rename\<close>




lemma renamePairs_foldl:
  "renamePairs F T i n out
     = foldl (\<lambda>ob j. renamePair (arrayAt F (min j (length F - 1)))
                       (arrayAt T (min j (length T - 1))) ob) out [i..<n]"
proof (induction F T i n out rule: renamePairs.induct)
  case (1 F T i n out)
  show ?case
  proof (cases "i < n")
    case True
    then have "[i..<n] = i # [Suc i..<n]" by (simp add: upt_conv_Cons)
    then show ?thesis using True 1 by (subst renamePairs.simps) simp
  next
    case False
    then show ?thesis by (subst renamePairs.simps) simp
  qed
qed
















section \<open>The handler\<close>

lemma deepGet_world: "snd (deepGet h rc p w) = w"
  by (cases rc) (simp_all add: ret_def thr_def)

lemma resolveInput_world: "snd (resolveInput h rt msg w) = w"
  by (simp add: resolveInput_def Let_def ret_def deepGet_world)

lemma runBatch_invalid:
  assumes "fst (resolveInput h rt msg (nodeStatus h ''blue'' ''dot'' ''processing...'' w))
             = Inr inputData"
    and "inputInvalid h inputData"
  shows "runBatch h rt msg w
           = (Inl invalidInput, nodeStatus h ''blue'' ''dot'' ''processing...'' w)"
proof -
  let ?wb = "nodeStatus h ''blue'' ''dot'' ''processing...'' w"
  have "resolveInput h rt msg ?wb = (Inr inputData, ?wb)"
    using assms(1) resolveInput_world [of h rt msg ?wb]
    by (cases "resolveInput h rt msg ?wb") simp
  then show ?thesis using assms(2)
    by (simp add: runBatch_def bnd_def effect_def thr_def)
qed

text \<open>
  Claim C9. When the value at the configured input path is missing, is not an object or
  has no (truthy) \<open>data\<close> property, the handler fails with the one error
  \<open>invalidInput\<close>: the outcome is \<open>Failed\<close>, never \<open>Sent\<close>, and the world it leaves is the
  starting world with two status updates and nothing else, so no file or sheet was
  processed, \<open>setOutput\<close> was not reached and nothing was written to the message or to a
  context store.
\<close>

theorem onInput_invalid_input:
  "(fst (resolveInput h rt msg (nodeStatus h ''blue'' ''dot'' ''processing...'' w)) = Inr inputData
      \<and> inputInvalid h inputData
    \<longrightarrow> onInput h rt msg w
          = (Failed invalidInput,
             nodeStatus h ''red'' ''ring'' (errText invalidInput)
               (nodeStatus h ''blue'' ''dot'' ''processing...'' w)))
   \<and> inputInvalid h Undefined
   \<and> (\<not> isObjectType v \<longrightarrow> inputInvalid h v)
   \<and> (\<not> has kvs ''data'' \<longrightarrow> inputInvalid h (Obj kvs))"
proof (intro conjI impI)
  assume "fst (resolveInput h rt msg (nodeStatus h ''blue'' ''dot'' ''processing...'' w)) = Inr inputData
      \<and> inputInvalid h inputData"
  then have "runBatch h rt msg w
           = (Inl invalidInput, nodeStatus h ''blue'' ''dot'' ''processing...'' w)"
    using runBatch_invalid [of h rt msg w inputData] by simp
  then show "onInput h rt msg w
          = (Failed invalidInput,
             nodeStatus h ''red'' ''ring'' (errText invalidInput)
               (nodeStatus h ''blue'' ''dot'' ''processing...'' w))"
    by (simp add: onInput_def)
next
  show "inputInvalid h Undefined" by (simp add: inputInvalid_def)
next
  assume "\<not> isObjectType v"
  then show "inputInvalid h v" by (simp add: inputInvalid_def)
next
  assume "\<not> has kvs ''data''"
  then have "map_of kvs ''data'' = None"
    by (simp add: has_def keys_def map_of_eq_None_iff)
  then show "inputInvalid h (Obj kvs)"
    by (simp add: inputInvalid_def member_def get_def)
qed

text \<open>A message whose \<open>data\<close> is an object without \<open>data\<close>: the store stays empty.\<close>

theorem onInput_invalid_input_witness:
  "fst (resolveInput demoHost plainSchema (Obj [(''data'', Obj [(''rows'', Arr [])])])
          (nodeStatus demoHost ''blue'' ''dot'' ''processing...'' world0))
     = Inr (Obj [(''rows'', Arr [])])
   \<and> inputInvalid demoHost (Obj [(''rows'', Arr [])])
   \<and> onInput demoHost plainSchema (Obj [(''data'', Obj [(''rows'', Arr [])])]) world0
     = (Failed invalidInput,
        \<lparr>clock = 0, statuses = [''processing...'', message invalidInput], store = []\<rparr>)"
proof -
  let ?m = "Obj [(''data'', Obj [(''rows'', Arr [])])] :: rat option jsval"
  have a: "fst (resolveInput demoHost plainSchema ?m
                  (nodeStatus demoHost ''blue'' ''dot'' ''processing...'' world0))
             = Inr (Obj [(''rows'', Arr [])])"
    by (simp add: input_defs plainSchema_def ret_def)
  have b: "inputInvalid demoHost (Obj [(''rows'', Arr [])] :: rat option jsval)"
    by (simp add: input_defs)
  from onInput_invalid_input [of demoHost plainSchema ?m world0 "Obj [(''rows'', Arr [])]" Undefined "[]"]
    a b
  show ?thesis
    by (simp add: demoHost_def world0_def errText_def invalidInput_def)
qed

section \<open>Lock files\<close>

lemma processFile_lock:
  "isLockFile h file \<Longrightarrow> processFile h rt msg inc exc (file, sheets) a = ret a"
  by (simp add: processFile_def isLockFile_def)

lemma processFiles_skip_locks:
  "processFiles h rt msg inc exc es a
     = processFiles h rt msg inc exc (filter (\<lambda>e. \<not> isLockFile h (fst e)) es) a"
proof (induction es arbitrary: a)
  case Nil
  then show ?case by simp
next
  case (Cons e es)
  obtain fl sh where e: "e = (fl, sh)" by (cases e)
  have ih: "processFiles h rt msg inc exc es
      = processFiles h rt msg inc exc (filter (\<lambda>e. \<not> isLockFile h (fst e)) es)"
    by (rule ext) (rule Cons.IH)
  show ?case
  proof (cases "isLockFile h fl")
    case True
    then show ?thesis using Cons.IH
      by (simp add: e processFile_lock bnd_def ret_def)
  next
    case False
    then show ?thesis using ih by (simp add: e)
  qed
qed

text \<open>
  Claim C8, as amended. A file whose base name (\<open>path.basename\<close> of its name) starts with
  \<open>~$\<close> is skipped before anything else: its round of the file loop returns the counters,
  the result map and the world unchanged, and the whole loop gives the same counters,
  result map and world as the loop over the files that are not lock files.
\<close>

theorem lock_files_skipped:
  "(isLockFile h file \<longrightarrow> processFile h rt msg inc exc (file, sheets) a w = (Inr a, w))
   \<and> processFiles h rt msg inc exc es a w
       = processFiles h rt msg inc exc (filter (\<lambda>e. \<not> isLockFile h (fst e)) es) a w"
proof (intro conjI impI)
  assume "isLockFile h file"
  then show "processFile h rt msg inc exc (file, sheets) a w = (Inr a, w)"
    by (simp add: processFile_lock ret_def)
next
  show "processFiles h rt msg inc exc es a w
       = processFiles h rt msg inc exc (filter (\<lambda>e. \<not> isLockFile h (fst e)) es) a w"
    using processFiles_skip_locks [of h rt msg inc exc es a] by simp
qed

text \<open>A lock file inside a directory, next to a workbook.\<close>

theorem lock_files_skipped_witness:
  "isLockFile demoHost ''~$Book1.xlsx''
   \<and> isLockFile demoHost ''data/~$Book1.xlsx''
   \<and> processFile demoHost plainSchema (Obj []) None None (''data/~$Book1.xlsx'', oneSheet)
       emptyAcc world0 = (Inr emptyAcc, world0)
   \<and> processFiles demoHost plainSchema (Obj []) None None
       [(''data/~$Book1.xlsx'', oneSheet), (''Book1.xlsx'', oneSheet)] emptyAcc world0
     = processFiles demoHost plainSchema (Obj []) None None [(''Book1.xlsx'', oneSheet)]
         emptyAcc world0
   \<and> processFiles demoHost plainSchema (Obj []) None None [(''Book1.xlsx'', oneSheet)]
         emptyAcc world0
     = (Inr \<lparr>resultMap = [(''Book1.xlsx'', oneSheet)], fileCount = 1, sheetCount = 1,
             rowIn = 1, rowOut = 1\<rparr>, world0)"
proof -
  have l: "isLockFile demoHost ''data/~$Book1.xlsx''"
    by (simp add: isLockFile_def startsWith_def demoHost_def posixBasename_def)
  have n: "\<not> isLockFile demoHost ''Book1.xlsx''"
    by (simp add: isLockFile_def startsWith_def demoHost_def posixBasename_def)
  have v: "processFiles demoHost plainSchema (Obj []) None None [(''Book1.xlsx'', oneSheet)]
         emptyAcc world0
     = (Inr \<lparr>resultMap = [(''Book1.xlsx'', oneSheet)], fileCount = 1, sheetCount = 1,
             rowIn = 1, rowOut = 1\<rparr>, world0)"
    by (simp add: stage_defs io_defs oneSheet_def plainSchema_def demoHost_def
        posixBasename_def world0_def)
  from lock_files_skipped [of demoHost "''data/~$Book1.xlsx''" plainSchema "Obj []" None None
      oneSheet emptyAcc world0
      "[(''data/~$Book1.xlsx'', oneSheet), (''Book1.xlsx'', oneSheet)]"] l n v
  show ?thesis by (simp add: isLockFile_def startsWith_def demoHost_def posixBasename_def)
qed

text \<open>
  Claim C8 as stated fails for a name that starts with \<open>~$\<close> in a directory part: the name
  \<open>~$tmp/Book1.xlsx\<close> starts with \<open>~$\<close>, its base name \<open>Book1.xlsx\<close> does not, and the file is
  counted and its rows are emitted.
\<close>

theorem lock_prefix_on_directory_processed:
  "startsWith ''~$tmp/Book1.xlsx'' ''~$''
   \<and> processFile demoHost plainSchema (Obj []) None None (''~$tmp/Book1.xlsx'', oneSheet)
       emptyAcc world0
     = (Inr \<lparr>resultMap = [(''~$tmp/Book1.xlsx'', oneSheet)], fileCount = 1, sheetCount = 1,
             rowIn = 1, rowOut = 1\<rparr>, world0)"
  by (simp add: stage_defs io_defs oneSheet_def plainSchema_def demoHost_def
      posixBasename_def world0_def)

section \<open>Flat output and summary\<close>

lemma has_Nil: "has [] k = False"
  by (simp add: has_def)

lemma get_Nil: "get [] k = Undefined"
  by (simp add: get_def)

lemma has_Cons: "has ((k', v') # b) k = (k = k' \<or> has b k)"
  by (auto simp: has_def keys_def)

lemma get_Cons: "get ((k', v') # b) k = (if k = k' then v' else get b k)"
  by (simp add: get_def)

lemma get_absent: "\<not> has ob k \<Longrightarrow> get ob k = Undefined"
proof -
  assume "\<not> has ob k"
  then have "map_of ob k = None" by (simp add: has_def keys_def map_of_eq_None_iff)
  then show ?thesis by (simp add: get_def)
qed

lemma assign_Cons: "assign a ((k', v') # b) = assign (put k' v' a) b"
  by (simp add: assign_def)

lemma assign_Nil: "assign a [] = a"
  by (simp add: assign_def)

lemma get_assign:
  "distinct (keys b) \<Longrightarrow> get (assign a b) k = (if has b k then get b k else get a k)"
proof (induction b arbitrary: a)
  case Nil
  then show ?case by (simp add: assign_Nil has_Nil)
next
  case (Cons kv b)
  obtain k' v' where kv: "kv = (k', v')" by (cases kv)
  have d: "distinct (keys b)" and n: "\<not> has b k'"
    using Cons.prems by (simp_all add: keys_def has_def kv)
  have "get (assign a (kv # b)) k = (if has b k then get b k else get (put k' v' a) k)"
    using Cons.IH [OF d] by (simp add: kv assign_Cons)
  then show ?case using n by (auto simp: kv has_Cons get_Cons get_put)
qed

lemma has_assign: "has (assign a b) k = (has a k \<or> has b k)"
proof (induction b arbitrary: a)
  case Nil
  then show ?case by (simp add: assign_Nil has_Nil)
next
  case (Cons kv b)
  obtain k' v' where kv: "kv = (k', v')" by (cases kv)
  show ?case using Cons.IH [of "put k' v' a"]
    by (auto simp: kv assign_Cons has_put has_Cons)
qed

lemma bnd_Inr:
  "bnd m f w = (Inr y, w') \<Longrightarrow> \<exists>x w1. m w = (Inr x, w1) \<and> f x w1 = (Inr y, w')"
  by (cases "m w") (auto simp: bnd_def split: sum.splits)

lemma catch_Inr:
  "catch m hdl w = (Inr y, w') \<Longrightarrow>
   m w = (Inr y, w') \<or> (\<exists>e w1. m w = (Inl e, w1) \<and> hdl e w1 = (Inr y, w'))"
  by (cases "m w") (auto simp: catch_def split: sum.splits)

lemma distinct_assign: "distinct (keys a) \<Longrightarrow> distinct (keys (assign a b))"
proof (induction b arbitrary: a)
  case Nil
  then show ?case by (simp add: assign_Nil)
next
  case (Cons kv b)
  obtain k v where kv: "kv = (k, v)" by (cases kv)
  show ?case using Cons.IH [of "put k v a"] Cons.prems
    by (simp add: kv assign_Cons distinct_put)
qed

lemma distinct_spread: "distinct (keys (spread v))"
  by (simp add: spread_def distinct_assign)

lemma distinct_pickInto:
  "distinct (keys (fst out)) \<Longrightarrow> distinct (keys (fst (pickInto h row S out)))"
  by (induction S arbitrary: out) (auto simp: distinct_setProp split: option.splits)

lemma distinct_pickSet: "distinct (keys (pickSet h row S))"
  by (simp add: pickSet_def distinct_pickInto)

lemma distinct_foldl_put:
  "distinct (keys (fst acc)) \<Longrightarrow>
   distinct (keys (fst (foldl (\<lambda>out k. if P k then out else if Q k then out
                                       else setProp k (f k) out) acc ks)))"
  by (induction ks arbitrary: acc) (simp_all add: distinct_setProp)

lemma distinct_omitSet: "distinct (keys (omitSet h row S))"
  unfolding omitSet_def Let_def by (rule distinct_foldl_put) simp

lemma distinct_del: "distinct (keys ob) \<Longrightarrow> distinct (keys (del k ob))"
  by (simp add: del_def keys_def distinct_map_filter)

lemma distinct_renamePair:
  "distinct (keys (fst out)) \<Longrightarrow> distinct (keys (fst (renamePair f t out)))"
  by (auto simp: renamePair_def delProp_def distinct_del distinct_setProp split: option.splits)

lemma distinct_foldl_renamePair:
  "distinct (keys (fst out)) \<Longrightarrow>
   distinct (keys (fst (foldl (\<lambda>ob j. renamePair (F j) (T j) ob) out js)))"
  by (induction js arbitrary: out) (simp_all add: distinct_renamePair)

lemma distinct_renamePairs:
  "distinct (keys (fst out)) \<Longrightarrow> distinct (keys (fst (renamePairs F T i n out)))"
  unfolding renamePairs_foldl by (rule distinct_foldl_renamePair)

lemma renameEntries_distinct:
  "renameEntries h row msg sheet lst out w = (Inr out', w') \<Longrightarrow> distinct (keys (fst out))
   \<Longrightarrow> distinct (keys (fst out'))"
proof (induction lst arbitrary: out w)
  case Nil
  then show ?case by (simp add: ret_def)
next
  case (Cons it lst)
  from Cons.prems(1) obtain applies w1 where
    a: "ruleAppliesTo h msg it sheet (Obj row) w = (Inr applies, w1)"
    and b: "(if \<not> applies then renameEntries h row msg sheet lst out
        else
         bnd (resolveDynamic h msg (fromRef it) (fromType it) (Obj row) [(''sheet'', Str sheet)])
           (\<lambda>fromRes.
         bnd (resolveDynamic h msg (toRef it) (toType it) (Obj row) [(''sheet'', Str sheet)])
           (\<lambda>toRes.
             let fromArr = map (jsString h) (ensureArray fromRes);
                 toArr = map (jsString h) (ensureArray toRes)
             in renameEntries h row msg sheet lst
                  (if fromArr \<noteq> [] \<and> toArr \<noteq> []
                   then renamePairs fromArr toArr 0 (max (length fromArr) (length toArr)) out
                   else out)))) w1 = (Inr out', w')"
    by (auto dest!: bnd_Inr)
  show ?case
  proof (cases applies)
    case False
    then show ?thesis using b Cons.IH Cons.prems(2) by simp
  next
    case True
    with b obtain fromRes w2 toRes w3 where
      c: "renameEntries h row msg sheet lst
            (let fromArr = map (jsString h) (ensureArray fromRes);
                 toArr = map (jsString h) (ensureArray toRes)
             in if fromArr \<noteq> [] \<and> toArr \<noteq> []
                then renamePairs fromArr toArr 0 (max (length fromArr) (length toArr)) out
                else out) w3 = (Inr out', w')"
      by (auto dest!: bnd_Inr simp: Let_def)
    show ?thesis
      by (rule Cons.IH [OF c]) (simp add: Let_def distinct_renamePairs Cons.prems(2))
  qed
qed

lemma renameWithList_distinct:
  assumes "renameWithList h row msg sheet lst w = (Inr out', w')"
  shows "distinct (keys out')"
proof -
  from assms obtain res where
    r: "renameEntries h row msg sheet lst (assign [] row, True) w = (Inr res, w')"
    and o: "out' = fst res"
    unfolding renameWithList_def by (auto dest!: bnd_Inr simp: ret_def)
  have "distinct (keys (fst res))"
    by (rule renameEntries_distinct [OF r]) (simp add: distinct_assign)
  then show ?thesis using o by simp
qed

lemma renameRows_distinct:
  "renameRows h msg sheet lst rows w = (Inr rows', w') \<Longrightarrow> \<forall>r \<in> set rows'. distinct (keys r)"
proof (induction rows arbitrary: rows' w w')
  case Nil
  then show ?case by (simp add: ret_def)
next
  case (Cons r rows)
  from Cons.prems obtain r1 w1 rs1 w2 where
    a: "renameWithList h r msg sheet lst w = (Inr r1, w1)"
    and b: "renameRows h msg sheet lst rows w1 = (Inr rs1, w2)"
    and c: "rows' = r1 # rs1"
    by (auto dest!: bnd_Inr simp: ret_def)
  show ?case using renameWithList_distinct [OF a] Cons.IH [OF b] c by simp
qed

lemma deriveRow_distinct:
  "deriveRow h msg sheet r ds out w = (Inr out', w') \<Longrightarrow> distinct (keys (fst out))
   \<Longrightarrow> distinct (keys (fst out'))"
proof (induction ds arbitrary: out w)
  case Nil
  then show ?case by (simp add: ret_def)
next
  case (Cons d ds)
  show ?case
  proof (cases "newCol d \<noteq> [] \<and> exprType d = ''jsonata''")
    case False
    then show ?thesis using Cons by (auto split: if_splits)
  next
    case True
    let ?ev = "evalJSONata h (sanitizeExpr h (if truthy h (expr d) then expr d else Str []))
                 (Obj (put ''sheet'' (Str sheet) (put ''row'' (Obj r) (spread msg))))"
    from Cons.prems(1) True obtain out1 w1 where
      a: "catch (bnd ?ev (\<lambda>val. ret (setProp (newCol d) val out))) (\<lambda>e. ret out) w
            = (Inr out1, w1)"
      and b: "deriveRow h msg sheet r ds out1 w1 = (Inr out', w')"
      by (auto dest!: bnd_Inr)
    have "distinct (keys (fst out1))"
      using catch_Inr [OF a] Cons.prems(2)
      by (auto dest!: bnd_Inr simp: ret_def distinct_setProp)
    then show ?thesis using Cons.IH [OF b] by simp
  qed
qed

lemma deriveRows_distinct:
  "deriveRows h msg sheet ds rows w = (Inr rows', w') \<Longrightarrow> \<forall>r \<in> set rows'. distinct (keys r)"
proof (induction rows arbitrary: rows' w w')
  case Nil
  then show ?case by (simp add: ret_def)
next
  case (Cons r rows)
  from Cons.prems obtain r1 w1 rs1 w2 where
    a: "deriveRow h msg sheet r ds (assign [] r, True) w = (Inr r1, w1)"
    and b: "deriveRows h msg sheet ds rows w1 = (Inr rs1, w2)"
    and c: "rows' = fst r1 # rs1"
    by (auto dest!: bnd_Inr simp: ret_def)
  have "distinct (keys (fst r1))"
    using deriveRow_distinct [OF a] by (simp add: distinct_assign)
  then show ?case using Cons.IH [OF b] c by simp
qed

lemma selectStage_distinct:
  "selectStage h rt msg sheet rows w = (Inr rows', w') \<Longrightarrow> \<forall>r \<in> set rows. distinct (keys r)
   \<Longrightarrow> \<forall>r \<in> set rows'. distinct (keys r)"
  by (auto simp: selectStage_def ret_def distinct_pickSet distinct_omitSet
      dest!: bnd_Inr split: if_splits)

lemma staticRenameStage_distinct:
  "staticRenameStage h rt msg sheet rows w = (Inr rows', w') \<Longrightarrow>
   \<forall>r \<in> set rows. distinct (keys r) \<Longrightarrow> \<forall>r \<in> set rows'. distinct (keys r)"
  by (auto simp: staticRenameStage_def ret_def dest: renameRows_distinct split: if_splits)

lemma conditionalRenameStage_distinct:
  assumes "conditionalRenameStage h rt msg sheet rows w = (Inr rows', w')"
    and "\<forall>r \<in> set rows. distinct (keys r)"
  shows "\<forall>r \<in> set rows'. distinct (keys r)"
proof (cases "enabled (conditionalRename rt)")
  case False
  then show ?thesis using assms by (simp add: conditionalRenameStage_def ret_def)
next
  case True
  with assms(1) obtain c w1 where
    a: "(if c then renameRows h msg sheet (condList (conditionalRename rt)) rows
         else ret rows) w1 = (Inr rows', w')"
    by (auto simp: conditionalRenameStage_def dest!: bnd_Inr)
  show ?thesis
  proof (cases c)
    case True
    then show ?thesis using a renameRows_distinct by fastforce
  next
    case False
    then show ?thesis using a assms(2) by (simp add: ret_def)
  qed
qed

lemma deriveStage_distinct:
  "deriveStage h rt msg sheet rows w = (Inr rows', w') \<Longrightarrow>
   \<forall>r \<in> set rows. distinct (keys r) \<Longrightarrow> \<forall>r \<in> set rows'. distinct (keys r)"
  by (auto simp: deriveStage_def ret_def dest: deriveRows_distinct split: if_splits)

lemma transformRows_distinct:
  assumes "transformRows h rt msg sheet filtered w = (Inr rows, w')"
  shows "\<forall>r \<in> set rows. distinct (keys r)"
proof -
  from assms obtain t1 w1 t2 w2 t3 w3 where
    a: "selectStage h rt msg sheet (map spread filtered) w = (Inr t1, w1)"
    and b: "staticRenameStage h rt msg sheet t1 w1 = (Inr t2, w2)"
    and c: "conditionalRenameStage h rt msg sheet t2 w2 = (Inr t3, w3)"
    and d: "deriveStage h rt msg sheet t3 w3 = (Inr rows, w')"
    unfolding transformRows_def by (auto dest!: bnd_Inr)
  have "\<forall>r \<in> set (map spread filtered). distinct (keys r)" by (simp add: distinct_spread)
  then have "\<forall>r \<in> set t1. distinct (keys r)" by (rule selectStage_distinct [OF a])
  then have "\<forall>r \<in> set t2. distinct (keys r)" by (rule staticRenameStage_distinct [OF b])
  then have "\<forall>r \<in> set t3. distinct (keys r)" by (rule conditionalRenameStage_distinct [OF c])
  then show ?thesis by (rule deriveStage_distinct [OF d])
qed

lemma flat_push_all:
  "get m ''__flat'' = Arr xs \<Longrightarrow>
   get (foldl (\<lambda>m rr. put ''__flat''
                 (case get m ''__flat'' of
                    Arr xs \<Rightarrow> Arr (xs @ [Obj (flatRow file sheetName rr)])
                  | other \<Rightarrow> other) m) m rows) ''__flat''
     = Arr (xs @ map (\<lambda>rr. Obj (flatRow file sheetName rr)) rows)"
proof (induction rows arbitrary: m xs)
  case Nil
  then show ?case by simp
next
  case (Cons r rows)
  let ?m1 = "put ''__flat'' (Arr (xs @ [Obj (flatRow file sheetName r)])) m"
  have "get ?m1 ''__flat'' = Arr (xs @ [Obj (flatRow file sheetName r)])"
    by (simp add: get_put)
  from Cons.IH [OF this] show ?case using Cons.prems by simp
qed

text \<open>
  Claim C10. In flat mode every transformed row is emitted as
  \<open>{_file, _sheet, ...row}\<close>: the emitted row has \<open>_file\<close> and \<open>_sheet\<close>; each holds the row's
  own value when the row has that key, and the enclosing file or sheet name otherwise;
  every other key is as in the row. The rows of a sheet are appended in order to the array
  under \<open>__flat\<close>. A row is an object, its keys are distinct: so are the keys of every
  transformed row that stage 2 returns.
\<close>

theorem flat_row_own_keys_win:
  assumes "distinct (keys rr)"
  shows "get (flatRow file sheetName rr) ''_file''
           = (if has rr ''_file'' then get rr ''_file'' else Str file)
       \<and> get (flatRow file sheetName rr) ''_sheet''
           = (if has rr ''_sheet'' then get rr ''_sheet'' else Str sheetName)
       \<and> has (flatRow file sheetName rr) ''_file'' \<and> has (flatRow file sheetName rr) ''_sheet''
       \<and> (k \<noteq> ''_file'' \<and> k \<noteq> ''_sheet'' \<longrightarrow>
            get (flatRow file sheetName rr) k = get rr k
            \<and> has (flatRow file sheetName rr) k = has rr k)
       \<and> (outStructure (outputCfg rt) \<noteq> ''hierarchical'' \<and> get rm ''__flat'' = Arr old \<longrightarrow>
            get (storeSheet h rt file sheetName rows rm) ''__flat''
              = Arr (old @ map (\<lambda>r. Obj (flatRow file sheetName r)) rows))
       \<and> (outStructure (outputCfg rt) \<noteq> ''hierarchical'' \<and> \<not> has rm ''__flat'' \<longrightarrow>
            get (storeSheet h rt file sheetName rows rm) ''__flat''
              = Arr (map (\<lambda>r. Obj (flatRow file sheetName r)) rows))
       \<and> (transformRows h rt msg sheetName filtered w = (Inr transformed, w') \<longrightarrow>
            (\<forall>r \<in> set transformed. distinct (keys r)))"
proof (intro conjI impI)
  show "get (flatRow file sheetName rr) ''_file''
           = (if has rr ''_file'' then get rr ''_file'' else Str file)"
    using assms by (simp add: flatRow_def get_assign get_Cons)
  show "get (flatRow file sheetName rr) ''_sheet''
           = (if has rr ''_sheet'' then get rr ''_sheet'' else Str sheetName)"
    using assms by (simp add: flatRow_def get_assign get_Cons)
  show "has (flatRow file sheetName rr) ''_file''"
    by (simp add: flatRow_def has_assign has_Cons)
  show "has (flatRow file sheetName rr) ''_sheet''"
    by (simp add: flatRow_def has_assign has_Cons)
next
  assume k: "k \<noteq> ''_file'' \<and> k \<noteq> ''_sheet''"
  show "get (flatRow file sheetName rr) k = get rr k"
    using assms k by (simp add: flatRow_def get_assign get_Cons get_Nil get_absent)
  show "has (flatRow file sheetName rr) k = has rr k"
    using k by (simp add: flatRow_def has_assign has_Cons has_Nil)
next
  assume a: "outStructure (outputCfg rt) \<noteq> ''hierarchical'' \<and> get rm ''__flat'' = Arr old"
  then have "get (put ''__flat'' (Arr old) rm) ''__flat'' = Arr old" by (simp add: get_put)
  from flat_push_all [OF this, of "file" sheetName rows] a
  show "get (storeSheet h rt file sheetName rows rm) ''__flat''
              = Arr (old @ map (\<lambda>r. Obj (flatRow file sheetName r)) rows)"
    by (simp add: storeSheet_def Let_def)
next
  assume a: "outStructure (outputCfg rt) \<noteq> ''hierarchical'' \<and> \<not> has rm ''__flat''"
  then have u: "get rm ''__flat'' = Undefined"
    by (simp add: get_absent)
  have "get (put ''__flat'' (Arr []) rm) ''__flat'' = Arr []" by (simp add: get_put)
  from flat_push_all [OF this, of "file" sheetName rows] a u
  show "get (storeSheet h rt file sheetName rows rm) ''__flat''
              = Arr (map (\<lambda>r. Obj (flatRow file sheetName r)) rows)"
    by (simp add: storeSheet_def Let_def)
next
  assume "transformRows h rt msg sheetName filtered w = (Inr transformed, w')"
  then show "\<forall>r \<in> set transformed. distinct (keys r)" by (rule transformRows_distinct)
qed

text \<open>A row that brings its own \<open>_file\<close>.\<close>

theorem flat_row_own_keys_win_witness:
  "distinct (keys taggedRow)
   \<and> has taggedRow ''_file'' \<and> \<not> has taggedRow ''_sheet''
   \<and> get (flatRow ''Book1.xlsx'' ''Sheet1'' taggedRow) ''_file'' = Str ''mine''
   \<and> get (flatRow ''Book1.xlsx'' ''Sheet1'' taggedRow) ''_sheet'' = Str ''Sheet1''
   \<and> get (flatRow ''Book1.xlsx'' ''Sheet1'' taggedRow) ''A'' = Str ''1''
   \<and> outStructure (outputCfg flatSchema) \<noteq> ''hierarchical''
   \<and> get (storeSheet demoHost flatSchema ''Book1.xlsx'' ''Sheet1'' [taggedRow] []) ''__flat''
     = Arr [Obj [(''_file'', Str ''mine''), (''_sheet'', Str ''Sheet1''), (''A'', Str ''1'')]]"
proof -
  have d: "distinct (keys taggedRow)" "has taggedRow ''_file''" "\<not> has taggedRow ''_sheet''"
    by (simp_all add: taggedRow_def keys_def has_def)
  have g: "get taggedRow ''_file'' = Str ''mine''" "get taggedRow ''A'' = Str ''1''"
    by (simp_all add: taggedRow_def get_def)
  have s: "outStructure (outputCfg flatSchema) \<noteq> ''hierarchical''"
    by (simp add: flatSchema_def plainSchema_def)
  have e: "\<not> has ([] :: rat option obj) ''__flat''" by (simp add: has_Nil)
  have f: "flatRow ''Book1.xlsx'' ''Sheet1'' taggedRow
      = [(''_file'', Str ''mine''), (''_sheet'', Str ''Sheet1''), (''A'', Str ''1'')]"
    by (simp add: flatRow_def assign_def taggedRow_def)
  from flat_row_own_keys_win [OF d(1), of "''Book1.xlsx''" "''Sheet1''" "''A''" flatSchema "[]"
      "[]" demoHost "[taggedRow]" "Obj []" "[]" world0 "[]" world0] d g s e f
  show ?thesis by simp
qed

section \<open>Summary\<close>

lemma runBatch_valid:
  assumes "fst (resolveInput h rt msg (nodeStatus h ''blue'' ''dot'' ''processing...'' w)) = Inr d"
    and "\<not> inputInvalid h d"
    and "processFiles h rt msg (safeRegex h (includeSheetRegex rt)) (safeRegex h (excludeSheetRegex rt))
           (entries (member h d ''data'')) emptyAcc
           (nodeStatus h ''blue'' ''dot'' ''processing...'' w) = (Inr a, w2)"
    and "setOutput h msg (Obj (outObjOf h rt a)) (targetType (outputCfg rt))
           (targetPath (outputCfg rt)) w2 = (Inr msg1, w3)"
  shows "onInput h rt msg w
           = (Sent msg1,
              nodeStatus h ''green'' ''dot''
                (numToString h (numOfNat h (rowOut a)) @ ''/''
                 @ numToString h (numOfNat h (rowIn a)) @ '' rows'') w3)"
proof -
  let ?wb = "nodeStatus h ''blue'' ''dot'' ''processing...'' w"
  have "resolveInput h rt msg ?wb = (Inr d, ?wb)"
    using assms(1) resolveInput_world [of h rt msg ?wb]
    by (cases "resolveInput h rt msg ?wb") simp
  then show ?thesis using assms(2,3,4)
    by (simp add: onInput_def runBatch_def bnd_def effect_def ret_def Let_def)
qed

text \<open>
  Claim C5. In the summary, \<open>filteredRatio\<close> is \<open>rowOut / rowIn\<close> (the host's division of
  the two counters) when \<open>rowIn\<close> is greater than zero. When \<open>rowIn\<close> is zero the ratio is
  not defined: the field holds no number, its value is \<open>null\<close>. The summary is under
  \<open>summary\<close> in the output object exactly when \<open>includeSummary\<close> is set, and the output
  object of a successful run is the one built from the counters that the file loop
  returns.
\<close>

theorem summary_filteredRatio:
  "(0 < rowIn a \<longrightarrow>
      get (summaryOf h a) ''filteredRatio''
        = Num (numDiv h (numOfNat h (rowOut a)) (numOfNat h (rowIn a))))
   \<and> (rowIn a = 0 \<longrightarrow>
        (\<forall>n. get (summaryOf h a) ''filteredRatio'' \<noteq> Num n)
        \<and> get (summaryOf h a) ''filteredRatio'' = Null)
   \<and> get (summaryOf h a) ''rowIn'' = Num (numOfNat h (rowIn a))
   \<and> get (summaryOf h a) ''rowOut'' = Num (numOfNat h (rowOut a))
   \<and> (includeSummary (outputCfg rt) \<longrightarrow> get (outObjOf h rt a) ''summary'' = Obj (summaryOf h a))
   \<and> (\<not> includeSummary (outputCfg rt) \<longrightarrow> \<not> has (outObjOf h rt a) ''summary'')
   \<and> (fst (resolveInput h rt msg (nodeStatus h ''blue'' ''dot'' ''processing...'' w)) = Inr d
        \<and> \<not> inputInvalid h d
        \<and> processFiles h rt msg (safeRegex h (includeSheetRegex rt))
             (safeRegex h (excludeSheetRegex rt)) (entries (member h d ''data'')) emptyAcc
             (nodeStatus h ''blue'' ''dot'' ''processing...'' w) = (Inr a, w2)
        \<and> setOutput h msg (Obj (outObjOf h rt a)) (targetType (outputCfg rt))
             (targetPath (outputCfg rt)) w2 = (Inr msg1, w3)
      \<longrightarrow> fst (onInput h rt msg w) = Sent msg1)"
proof (intro conjI impI)
  assume "0 < rowIn a"
  then show "get (summaryOf h a) ''filteredRatio''
        = Num (numDiv h (numOfNat h (rowOut a)) (numOfNat h (rowIn a)))"
    by (simp add: summaryOf_def get_Cons)
next
  assume "rowIn a = 0"
  then show "\<forall>n. get (summaryOf h a) ''filteredRatio'' \<noteq> Num n"
    by (simp add: summaryOf_def get_Cons)
next
  assume "rowIn a = 0"
  then show "get (summaryOf h a) ''filteredRatio'' = Null"
    by (simp add: summaryOf_def get_Cons)
next
  show "get (summaryOf h a) ''rowIn'' = Num (numOfNat h (rowIn a))"
    by (simp add: summaryOf_def get_Cons)
  show "get (summaryOf h a) ''rowOut'' = Num (numOfNat h (rowOut a))"
    by (simp add: summaryOf_def get_Cons)
next
  assume "includeSummary (outputCfg rt)"
  then show "get (outObjOf h rt a) ''summary'' = Obj (summaryOf h a)"
    by (simp add: outObjOf_def Let_def get_Cons)
next
  assume "\<not> includeSummary (outputCfg rt)"
  then show "\<not> has (outObjOf h rt a) ''summary''"
    by (simp add: outObjOf_def Let_def has_Cons has_Nil)
next
  assume "fst (resolveInput h rt msg (nodeStatus h ''blue'' ''dot'' ''processing...'' w)) = Inr d
        \<and> \<not> inputInvalid h d
        \<and> processFiles h rt msg (safeRegex h (includeSheetRegex rt))
             (safeRegex h (excludeSheetRegex rt)) (entries (member h d ''data'')) emptyAcc
             (nodeStatus h ''blue'' ''dot'' ''processing...'' w) = (Inr a, w2)
        \<and> setOutput h msg (Obj (outObjOf h rt a)) (targetType (outputCfg rt))
             (targetPath (outputCfg rt)) w2 = (Inr msg1, w3)"
  then show "fst (onInput h rt msg w) = Sent msg1"
    using runBatch_valid [of h rt msg w d a w2 msg1 w3] by simp
qed

lemma amount_run:
  "processFiles demoHost amountSchema (msgOf amountBook) None None (entries amountBook) emptyAcc w
     = (Inr \<lparr>resultMap =
               [(''Book1.xlsx'',
                 Obj [(''Sheet1'', Arr [Obj [(''Status'', Str ''OK''), (''Amount'', Str ''10'')]])])],
             fileCount = 1, sheetCount = 1, rowIn = 2, rowOut = 1\<rparr>, w)"
  by (simp add: stage_defs io_defs rule_defs amountBook_def amountSchema_def amountRule_def
      plainSchema_def plainRule_def demoHost_def posixBasename_def compare_def coerceVal_def
      lowerUnless_def member_def has_def keys_def demoToNumber_def asciiTrim_def asciiSpace_def)

text \<open>
  Two rows in, one row out (the rule \<open>Amount >= "8"\<close>): the ratio is one half. No rows
  in: the field holds \<open>null\<close>.
\<close>

theorem summary_filteredRatio_witness:
  "fst (resolveInput demoHost amountSchema (msgOf amountBook)
          (nodeStatus demoHost ''blue'' ''dot'' ''processing...'' world0))
     = Inr (Obj [(''data'', amountBook)])
   \<and> \<not> inputInvalid demoHost (Obj [(''data'', amountBook)])
   \<and> processFiles demoHost amountSchema (msgOf amountBook) None None (entries amountBook) emptyAcc
       (nodeStatus demoHost ''blue'' ''dot'' ''processing...'' world0)
     = (Inr amountAcc, nodeStatus demoHost ''blue'' ''dot'' ''processing...'' world0)
   \<and> 0 < rowIn amountAcc
   \<and> includeSummary (outputCfg amountSchema)
   \<and> get (summaryOf demoHost amountAcc) ''filteredRatio'' = Num (Some (1 / 2))
   \<and> rowIn (emptyAcc :: rat option acc) = 0
   \<and> get (summaryOf demoHost emptyAcc) ''filteredRatio'' = Null
   \<and> get (outObjOf demoHost amountSchema amountAcc) ''summary''
     = Obj (summaryOf demoHost amountAcc)
   \<and> fst (onInput demoHost amountSchema (msgOf amountBook) world0)
     = Sent (assignProp (msgOf amountBook) ''filtered''
               (Obj (outObjOf demoHost amountSchema amountAcc)))"
proof -
  let ?wb = "nodeStatus demoHost ''blue'' ''dot'' ''processing...'' world0"
  have a: "fst (resolveInput demoHost amountSchema (msgOf amountBook) ?wb)
             = Inr (Obj [(''data'', amountBook)])"
    by (simp add: input_defs amountSchema_def plainSchema_def msgOf_def ret_def)
  have b: "\<not> inputInvalid demoHost (Obj [(''data'', amountBook)])"
    by (simp add: input_defs amountBook_def)
  have m: "member demoHost (Obj [(''data'', amountBook)]) ''data'' = amountBook"
    by (simp add: member_def get_def)
  have r: "safeRegex demoHost (includeSheetRegex amountSchema) = None"
    "safeRegex demoHost (excludeSheetRegex amountSchema) = None"
    by (simp_all add: safeRegex_def amountSchema_def plainSchema_def)
  have c: "processFiles demoHost amountSchema (msgOf amountBook) None None (entries amountBook)
             emptyAcc ?wb = (Inr amountAcc, ?wb)"
    by (simp add: amount_run amountAcc_def)
  have s: "setOutput demoHost (msgOf amountBook) (Obj (outObjOf demoHost amountSchema amountAcc))
             (targetType (outputCfg amountSchema)) (targetPath (outputCfg amountSchema)) ?wb
     = (Inr (assignProp (msgOf amountBook) ''filtered''
               (Obj (outObjOf demoHost amountSchema amountAcc))), ?wb)"
    by (simp add: setOutput_def amountSchema_def plainSchema_def lift_def demoHost_def)
  have i: "0 < rowIn amountAcc" "includeSummary (outputCfg amountSchema)"
    by (simp_all add: amountAcc_def amountSchema_def plainSchema_def)
  have z: "rowIn (emptyAcc :: rat option acc) = 0" by (simp add: emptyAcc_def)
  have y: "get (summaryOf demoHost emptyAcc) ''filteredRatio'' = Null"
    using summary_filteredRatio [of emptyAcc demoHost amountSchema "msgOf amountBook" world0
      "Obj [(''data'', amountBook)]" ?wb
      "assignProp (msgOf amountBook) ''filtered'' (Obj (outObjOf demoHost amountSchema amountAcc))"
      ?wb] z
    by (elim conjE) simp
  have q: "numDiv demoHost (numOfNat demoHost (rowOut amountAcc)) (numOfNat demoHost (rowIn amountAcc))
             = Some (1 / 2)"
    by (simp add: demoHost_def amountAcc_def)
  from summary_filteredRatio [of amountAcc demoHost amountSchema "msgOf amountBook" world0
      "Obj [(''data'', amountBook)]" ?wb
      "assignProp (msgOf amountBook) ''filtered'' (Obj (outObjOf demoHost amountSchema amountAcc))"
      ?wb]
    a b c s i q m r z y
  show ?thesis by simp
qed

text \<open>The whole handler on a batch with no files.\<close>

lemma empty_batch_output:
  "onInput demoHost plainSchema (msgOf (Obj [])) world0
     = (Sent (Obj [(''data'', Obj [(''data'', Obj [])]),
                   (''filtered'',
                    Obj [(''data'', Obj []),
                         (''summary'',
                          Obj [(''fileCount'', Num (Some 0)), (''sheetCount'', Num (Some 0)),
                               (''rowIn'', Num (Some 0)), (''rowOut'', Num (Some 0)),
                               (''filteredRatio'', Null)]),
                         (''rules'',
                          Obj [(''logic'', Str ''AND''), (''count'', Num (Some 0))])])]),
        \<lparr>clock = 0, statuses = [''processing...'', ''0/0 rows''], store = []\<rparr>)"
  by (simp add: batch_defs input_defs io_defs emptyAcc_def plainSchema_def msgOf_def
      demoHost_def world0_def indexKey_def)

section \<open>Conditional rename\<close>


















end
